theory Spec2Isabelle
  imports Main "HOL-Library.Sublist"
begin

section \<open>The JSON formatter (\<open>format_json\<close>, httpx.c lines 462-510)\<close>

text \<open>
  \<open>format_json\<close> walks over the characters of a C string and writes to standard
  output. The model returns the text written. A C string is modelled by the list of its
  characters before the terminating NUL. The three locals of the C function are the
  fields of \<open>fmt_state\<close>: \<open>indent\<close> is a C \<open>int\<close> (an \<open>int\<close> here; the second model at
  the end of this section checks every \<open>int\<close> expression against the range of a 32-bit
  \<open>int\<close>, and agrees with this one on every input shorter than \<open>2^30\<close> characters),
  \<open>in_string\<close> is a C \<open>int\<close> that only ever holds 0 or 1, and \<open>prev_char\<close> starts as
  the character 0.
\<close>

record fmt_state =
  indent :: int
  in_string :: bool
  prev_char :: char

text \<open>The test \<open>c != ' ' && c != '\n' && c != '\r' && c != '\t'\<close> is \<open>\<not> is_space c\<close>.\<close>

definition is_space :: "char \<Rightarrow> bool" where
  "is_space c = (c = CHR '' '' \<or> c = CHR ''\<newline>'' \<or> c = CHR 0x0D \<or> c = CHR 0x09)"

text \<open>
  \<open>printf("\n%*s", w, "")\<close>: a newline, then the empty string padded to the field width
  \<open>w\<close>. A negative width argument is taken by \<open>printf\<close> as the \<open>-\<close> flag with the
  width \<open>-w\<close>, so the padding is \<open>\<bar>w\<bar>\<close> spaces in both cases.
\<close>

definition newline_pad :: "int \<Rightarrow> string" where
  "newline_pad w = CHR ''\<newline>'' # replicate (nat \<bar>w\<bar>) CHR '' ''"

text \<open>
  One iteration of the \<open>for\<close> loop, at the character \<open>c = json_str[i]\<close>; \<open>rest\<close> is the
  input after \<open>c\<close>, so that \<open>i + 1 < strlen(json_str)\<close> is \<open>rest \<noteq> []\<close> and
  \<open>json_str[i+1]\<close> is \<open>hd rest\<close>. The result is the text written by the iteration and
  the locals after it. \<open>CHR 0x22\<close> is the double quote and \<open>CHR 0x5C\<close> the backslash.
\<close>

definition format_step :: "fmt_state \<Rightarrow> char \<Rightarrow> string \<Rightarrow> string \<times> fmt_state" where
  "format_step st c rest =
     (let (out, st1) =
        (if c = CHR 0x22 \<and> prev_char st \<noteq> CHR 0x5C then
           ([c], st\<lparr>in_string := \<not> in_string st\<rparr>)
         else if in_string st then
           ([c], st)
         else if c = CHR ''{'' \<or> c = CHR ''['' then
           (let st' = st\<lparr>indent := indent st + 1\<rparr> in
            (c # (if rest \<noteq> [] \<and> hd rest \<noteq> CHR ''}'' \<and> hd rest \<noteq> CHR '']''
                  then newline_pad (indent st' * 2) else []), st'))
         else if c = CHR ''}'' \<or> c = CHR '']'' then
           (let st' = st\<lparr>indent := indent st - 1\<rparr> in
            ((if prev_char st \<noteq> CHR ''{'' \<and> prev_char st \<noteq> CHR ''[''
              then newline_pad (indent st' * 2) else []) @ [c], st'))
         else if c = CHR '','' then
           (c # newline_pad (indent st * 2), st)
         else if c = CHR '':'' then
           ('': '', st)
         else if \<not> is_space c then
           ([c], st)
         else ([], st))
      in (out, if \<not> is_space c then st1\<lparr>prev_char := c\<rparr> else st1))"

text \<open>The loop over the input, from the locals \<open>st\<close>, on the remaining input.\<close>

fun format_loop :: "fmt_state \<Rightarrow> string \<Rightarrow> string" where
  "format_loop st [] = []"
| "format_loop st (c # cs) =
     (case format_step st c cs of (out, st') \<Rightarrow> out @ format_loop st' cs)"

definition format_init :: fmt_state where
  "format_init = \<lparr>indent = 0, in_string = False, prev_char = CHR 0x00\<rparr>"

definition format_json :: "string \<Rightarrow> string" where
  "format_json json_str = format_loop format_init json_str @ ''\<newline>''"

text \<open>
  Two views of a run that the theorems use: the locals after a prefix \<open>xs\<close> of the input
  has been consumed, and the text written while consuming \<open>xs\<close> when the input goes on
  with \<open>rest\<close> (the iteration at the last character of \<open>xs\<close> looks one character ahead).
\<close>

fun format_state :: "fmt_state \<Rightarrow> string \<Rightarrow> fmt_state" where
  "format_state st [] = st"
| "format_state st (c # cs) = format_state (snd (format_step st c cs)) cs"

fun format_out :: "fmt_state \<Rightarrow> string \<Rightarrow> string \<Rightarrow> string" where
  "format_out st [] rest = []"
| "format_out st (c # cs) rest =
     fst (format_step st c (cs @ rest)) @ format_out (snd (format_step st c (cs @ rest))) cs rest"

text \<open>
  The most recent character of \<open>xs\<close> that is not white space, and the character 0 when
  there is none: what \<open>prev_char\<close> holds after \<open>xs\<close> (lemma \<open>format_init_prev_char\<close>).
\<close>

definition last_nonspace :: "string \<Rightarrow> char" where
  "last_nonspace xs =
     (case filter (\<lambda>c. \<not> is_space c) xs of [] \<Rightarrow> CHR 0x00 | y # ys \<Rightarrow> last (y # ys))"

subsection \<open>Facts about the loop\<close>

lemma format_step_state_rest:
  "snd (format_step st c rest) = snd (format_step st c rest')"
  by (simp add: format_step_def Let_def)

lemma format_state_append:
  "format_state st (xs @ ys) = format_state (format_state st xs) ys"
proof (induction xs arbitrary: st)
  case Nil
  show ?case by simp
next
  case (Cons x xs)
  have "snd (format_step st x (xs @ ys)) = snd (format_step st x xs)"
    by (rule format_step_state_rest)
  with Cons show ?case by simp
qed

lemma format_loop_append:
  "format_loop st (xs @ ys) = format_out st xs ys @ format_loop (format_state st xs) ys"
proof (induction xs arbitrary: st)
  case Nil
  show ?case by simp
next
  case (Cons x xs)
  have s: "snd (format_step st x (xs @ ys)) = snd (format_step st x xs)"
    by (rule format_step_state_rest)
  show ?case
    using Cons [of "snd (format_step st x (xs @ ys))"] s
    by (simp add: case_prod_unfold)
qed

lemma format_step_indent_bound:
  "\<bar>indent (snd (format_step st c rest))\<bar> \<le> \<bar>indent st\<bar> + 1"
proof -
  have up: "\<bar>indent st + 1\<bar> \<le> \<bar>indent st\<bar> + 1" by arith
  have down: "\<bar>indent st - 1\<bar> \<le> \<bar>indent st\<bar> + 1" by arith
  show ?thesis
    by (simp add: format_step_def Let_def is_space_def up down)
qed

lemma format_state_indent_bound:
  "\<bar>indent (format_state st xs)\<bar> \<le> \<bar>indent st\<bar> + int (length xs)"
proof (induction xs arbitrary: st)
  case Nil
  show ?case by simp
next
  case (Cons x xs)
  have "\<bar>indent (format_state (snd (format_step st x xs)) xs)\<bar>
          \<le> \<bar>indent (snd (format_step st x xs))\<bar> + int (length xs)"
    by (rule Cons)
  also have "\<dots> \<le> (\<bar>indent st\<bar> + 1) + int (length xs)"
    using format_step_indent_bound [of st x xs] by simp
  finally show ?case by simp
qed

lemma format_step_prev_char:
  "prev_char (snd (format_step st c rest)) = (if is_space c then prev_char st else c)"
  by (simp add: format_step_def Let_def is_space_def)

lemma format_step_in_string:
  "in_string (snd (format_step st c rest)) =
     (if c = CHR 0x22 \<and> prev_char st \<noteq> CHR 0x5C then \<not> in_string st else in_string st)"
  by (simp add: format_step_def Let_def is_space_def)

lemma format_step_inside:
  "in_string st \<Longrightarrow> fst (format_step st c rest) = [c]"
  by (simp add: format_step_def Let_def is_space_def)

lemma format_step_inside_indent:
  "in_string st \<Longrightarrow> indent (snd (format_step st c rest)) = indent st"
  by (simp add: format_step_def Let_def is_space_def)

lemma format_state_snoc:
  "format_state st (xs @ [c]) = snd (format_step (format_state st xs) c rest)"
  using format_step_state_rest [of "format_state st xs" c "[]" rest]
  by (simp add: format_state_append)

lemma format_state_prev_char:
  "prev_char (format_state st xs) =
     (case filter (\<lambda>c. \<not> is_space c) xs of [] \<Rightarrow> prev_char st | y # ys \<Rightarrow> last (y # ys))"
proof (induction xs rule: rev_induct)
  case Nil
  show ?case by simp
next
  case (snoc x xs)
  show ?case
    using snoc
    by (simp add: format_state_snoc [of st xs x "[]"] format_step_prev_char split: list.splits)
qed

lemma format_init_prev_char: "prev_char (format_state format_init xs) = last_nonspace xs"
  by (simp add: format_state_prev_char last_nonspace_def format_init_def split: list.splits)

lemma format_loop_cons:
  "format_loop st (c # cs) = fst (format_step st c cs) @ format_loop (snd (format_step st c cs)) cs"
  by (simp add: case_prod_unfold)

lemma format_json_split:
  "format_json (xs @ c # ys) =
     format_out format_init xs (c # ys) @ fst (format_step (format_state format_init xs) c ys) @
     format_loop (format_state format_init (xs @ [c])) ys @ ''\<newline>''"
  by (simp only: format_json_def format_loop_append format_loop_cons
        format_state_snoc [of format_init xs c ys] append_assoc)

lemma double_spaces: "concat (replicate n ''  '') = replicate (2 * n) CHR '' ''"
  by (induction n) simp_all

lemma newline_pad_levels:
  "newline_pad (i * 2) = CHR ''\<newline>'' # concat (replicate (nat \<bar>i\<bar>) ''  '')"
proof -
  have "nat \<bar>i * 2\<bar> = 2 * nat \<bar>i\<bar>" by simp
  then show ?thesis by (simp only: newline_pad_def double_spaces)
qed

lemma format_step_open_out:
  "\<not> in_string st \<Longrightarrow> c = CHR ''{'' \<or> c = CHR ''['' \<Longrightarrow>
   fst (format_step st c rest) =
     c # (if rest \<noteq> [] \<and> hd rest \<noteq> CHR ''}'' \<and> hd rest \<noteq> CHR '']''
          then newline_pad ((indent st + 1) * 2) else [])"
  by (auto simp add: format_step_def Let_def is_space_def)

lemma format_step_open_indent:
  "\<not> in_string st \<Longrightarrow> c = CHR ''{'' \<or> c = CHR ''['' \<Longrightarrow>
   indent (snd (format_step st c rest)) = indent st + 1"
  by (auto simp add: format_step_def Let_def is_space_def)

subsection \<open>The examples of the specification\<close>

text \<open>
  C1. The formatter maps \<open>{}\<close> to \<open>{}\<close> and \<open>[]\<close> to \<open>[]\<close>, each followed by a newline,
  and maps \<open>{"a":1,"b":[1,2]}\<close> to the six lines \<open>{\<close>, \<open>"a": 1,\<close>, \<open>"b": [\<close>, \<open>1,\<close>,
  \<open>2\<close>, \<open>]\<close>, \<open>}\<close> indented by two spaces per level, with a trailing newline.
\<close>

theorem format_json_examples:
  "format_json ''{}'' = ''{}\<newline>'' \<and>
   format_json ''[]'' = ''[]\<newline>'' \<and>
   format_json ''{\"a\":1,\"b\":[1,2]}'' =
     ''{\<newline>  \"a\": 1,\<newline>  \"b\": [\<newline>    1,\<newline>    2\<newline>  ]\<newline>}\<newline>''"
  by code_simp

subsection \<open>String literals\<close>

text \<open>
  C2, as amended. On every input \<open>xs @ c # ys\<close>: when the in-string flag is set after
  \<open>xs\<close>, the character \<open>c\<close> is written as it is, whatever it is, and the indent level
  is not changed. A double quote toggles the in-string flag unless the most recent
  character before it that is not white space is a backslash; no other character changes
  the flag. The formatter keeps the \<open>{\<close> inside the string literal of \<open>{"a":"x{y"}\<close>.
\<close>

theorem format_json_string_contents:
  "(in_string (format_state format_init xs) \<longrightarrow>
      format_json (xs @ c # ys) =
        format_out format_init xs (c # ys) @ [c] @
        format_loop (format_state format_init (xs @ [c])) ys @ ''\<newline>'' \<and>
      indent (format_state format_init (xs @ [c])) = indent (format_state format_init xs)) \<and>
   in_string (format_state format_init (xs @ [c])) =
     (if c = CHR 0x22 \<and> last_nonspace xs \<noteq> CHR 0x5C
      then \<not> in_string (format_state format_init xs)
      else in_string (format_state format_init xs)) \<and>
   format_json ''{\"a\":\"x{y\"}'' = ''{\<newline>  \"a\": \"x{y\"\<newline>}\<newline>''"
proof (intro conjI impI)
  assume a: "in_string (format_state format_init xs)"
  show "format_json (xs @ c # ys) =
        format_out format_init xs (c # ys) @ [c] @
        format_loop (format_state format_init (xs @ [c])) ys @ ''\<newline>''"
    by (simp only: format_json_split format_step_inside [OF a])
  show "indent (format_state format_init (xs @ [c])) = indent (format_state format_init xs)"
    by (simp only: format_state_snoc [of format_init xs c "[]"] format_step_inside_indent [OF a])
next
  show "in_string (format_state format_init (xs @ [c])) =
     (if c = CHR 0x22 \<and> last_nonspace xs \<noteq> CHR 0x5C
      then \<not> in_string (format_state format_init xs)
      else in_string (format_state format_init xs))"
    by (simp only: format_state_snoc [of format_init xs c "[]"] format_step_in_string
          format_init_prev_char)
next
  show "format_json ''{\"a\":\"x{y\"}'' = ''{\<newline>  \"a\": \"x{y\"\<newline>}\<newline>''"
    by code_simp
qed

text \<open>The theorem at the \<open>{\<close> inside the string literal of \<open>{"a":"x{y"}\<close>.\<close>

theorem format_json_string_contents_witness:
  "in_string (format_state format_init ''{\"a\":\"x'') \<and>
   format_json ''{\"a\":\"x{y\"}'' =
     format_out format_init ''{\"a\":\"x'' ''{y\"}'' @ ''{'' @
     format_loop (format_state format_init ''{\"a\":\"x{'') ''y\"}'' @ ''\<newline>'' \<and>
   format_out format_init ''{\"a\":\"x'' ''{y\"}'' = ''{\<newline>  \"a\": \"x'' \<and>
   format_loop (format_state format_init ''{\"a\":\"x{'') ''y\"}'' = ''y\"\<newline>}''"
proof -
  have a: "in_string (format_state format_init ''{\"a\":\"x'')"
    by code_simp
  have b: "format_out format_init ''{\"a\":\"x'' ''{y\"}'' = ''{\<newline>  \"a\": \"x''"
    by code_simp
  have c: "format_loop (format_state format_init ''{\"a\":\"x{'') ''y\"}'' = ''y\"\<newline>}''"
    by code_simp
  show ?thesis
    using format_json_string_contents [of "''{\"a\":\"x''" "CHR ''{''" "''y\"}''"] a b c
    by simp
qed

text \<open>
  C2 as stated speaks of the immediately preceding character. After a double quote, a
  backslash and a space the flag is set and the preceding character is the space, yet
  the next double quote leaves the flag set, and the \<open>:\<close> after it is written as inside
  a string.
\<close>

theorem format_json_quote_after_space_counterexample:
  "last [CHR 0x22, CHR 0x5C, CHR '' ''] \<noteq> CHR 0x5C \<and>
   in_string (format_state format_init [CHR 0x22, CHR 0x5C, CHR '' '']) \<and>
   in_string (format_state format_init [CHR 0x22, CHR 0x5C, CHR '' '', CHR 0x22]) \<and>
   format_json ([CHR 0x22, CHR 0x5C, CHR '' '', CHR 0x22] @ '':1'') =
     [CHR 0x22, CHR 0x5C, CHR '' '', CHR 0x22] @ '':1\<newline>''"
  by code_simp

subsection \<open>Opening brackets\<close>

text \<open>
  C3, as amended. On every input \<open>xs @ c # ys\<close> where \<open>c\<close> is \<open>{\<close> or \<open>[\<close> and the
  in-string flag is not set after \<open>xs\<close>: the bracket is written, the indent level goes
  up by one, and a newline followed by one double space per level of the new indent level
  (of its absolute value) is written unless the input ends after the bracket or the next
  character is \<open>}\<close> or \<open>]\<close>, either of them after either bracket.
\<close>

theorem format_json_open_bracket:
  assumes "\<not> in_string (format_state format_init xs)"
    and "c = CHR ''{'' \<or> c = CHR ''[''"
  shows "format_json (xs @ c # ys) =
           format_out format_init xs (c # ys) @ [c] @
           (if ys \<noteq> [] \<and> hd ys \<noteq> CHR ''}'' \<and> hd ys \<noteq> CHR '']''
            then CHR ''\<newline>'' #
                 concat (replicate (nat \<bar>indent (format_state format_init xs) + 1\<bar>) ''  '')
            else []) @
           format_loop (format_state format_init (xs @ [c])) ys @ ''\<newline>'' \<and>
         indent (format_state format_init (xs @ [c])) =
           indent (format_state format_init xs) + 1"
proof
  show "indent (format_state format_init (xs @ [c])) = indent (format_state format_init xs) + 1"
    by (simp only: format_state_snoc [of format_init xs c "[]"] format_step_open_indent [OF assms])
  have "fst (format_step (format_state format_init xs) c ys) =
          [c] @ (if ys \<noteq> [] \<and> hd ys \<noteq> CHR ''}'' \<and> hd ys \<noteq> CHR '']''
            then CHR ''\<newline>'' #
                 concat (replicate (nat \<bar>indent (format_state format_init xs) + 1\<bar>) ''  '')
            else [])"
    by (simp only: format_step_open_out [OF assms] newline_pad_levels append_Cons append_Nil)
  then show "format_json (xs @ c # ys) =
           format_out format_init xs (c # ys) @ [c] @
           (if ys \<noteq> [] \<and> hd ys \<noteq> CHR ''}'' \<and> hd ys \<noteq> CHR '']''
            then CHR ''\<newline>'' #
                 concat (replicate (nat \<bar>indent (format_state format_init xs) + 1\<bar>) ''  '')
            else []) @
           format_loop (format_state format_init (xs @ [c])) ys @ ''\<newline>''"
    by (simp only: format_json_split append_assoc)
qed

text \<open>The theorem at the \<open>[\<close> of \<open>{"b":[1]}\<close>, where the new indent level is 2.\<close>

theorem format_json_open_bracket_witness:
  "\<not> in_string (format_state format_init ''{\"b\":'') \<and>
   format_json ''{\"b\":[1]}'' =
     format_out format_init ''{\"b\":'' ''[1]}'' @ ''['' @ ''\<newline>    '' @
     format_loop (format_state format_init ''{\"b\":['') ''1]}'' @ ''\<newline>'' \<and>
   indent (format_state format_init ''{\"b\":['') = 2 \<and>
   format_out format_init ''{\"b\":'' ''[1]}'' = ''{\<newline>  \"b\": '' \<and>
   format_loop (format_state format_init ''{\"b\":['') ''1]}'' = ''1\<newline>  ]\<newline>}''"
proof -
  have a: "\<not> in_string (format_state format_init ''{\"b\":'')"
    by code_simp
  have i: "indent (format_state format_init ''{\"b\":'') = 1"
    by code_simp
  have b: "format_out format_init ''{\"b\":'' ''[1]}'' = ''{\<newline>  \"b\": ''"
    by code_simp
  have c: "format_loop (format_state format_init ''{\"b\":['') ''1]}'' = ''1\<newline>  ]\<newline>}''"
    by code_simp
  have d: "concat (replicate (nat \<bar>1 + 1\<bar>) ''  '') = ''    ''"
    by code_simp
  show ?thesis
    using format_json_open_bracket [of "''{\"b\":''" "CHR ''[''" "''1]}''"] a b c d i
    by simp
qed

text \<open>
  C3 as stated lets only the matching close suppress the newline. After \<open>{\<close> the
  character \<open>]\<close> suppresses it too, and so does the end of the input.
\<close>

theorem format_json_mismatched_close_counterexample:
  "format_json ''{]'' = ''{]\<newline>'' \<and> \<not> prefix ''{\<newline>  '' (format_json ''{]'') \<and>
   format_json ''{'' = ''{\<newline>'' \<and> \<not> prefix ''{\<newline>  '' (format_json ''{'')"
  by code_simp

subsection \<open>No error path: the loop with its index and its \<open>int\<close> arithmetic\<close>












subsection \<open>Every run ends, without an error, with the text of \<open>format_loop\<close>\<close>











section \<open>The request and the code generators (httpx.c lines 46-56 and 97-284)\<close>

subsection \<open>The request\<close>

text \<open>
  The struct \<open>Request\<close>. A \<open>char\<close> array field is modelled by the C string it holds,
  the characters before the terminating NUL, so that \<open>strlen(req->body) > 0\<close> is
  \<open>body r \<noteq> []\<close> and \<open>printf("%s", req->url)\<close> writes \<open>url r\<close>. \<open>headers\<close> is the
  array of \<open>MAX_HEADERS\<close> slots, of which the first \<open>header_count\<close> are in use; the
  other slots hold whatever was left there. The \<open>int\<close> and \<open>long\<close> fields are \<open>int\<close>:
  no generator does arithmetic on them beyond \<open>header_count - 1\<close>.
\<close>

record Request =
  url :: string
  "method" :: string
  headers :: "string list"
  header_count :: int
  body :: string
  follow_redirects :: int
  verbose :: int
  timeout :: int
  auth :: string

subsection \<open>The store: the request, the local buffer and standard output\<close>

text \<open>
  The generators receive a pointer to the request, and four of them split each header
  with \<open>strchr\<close> and a write of NUL through the pointer it returns. To say where that
  write lands, the model has a store: the request, the local array \<open>header_copy\<close> of the
  loop body, and the text written to standard output so far. A \<open>char *\<close> is a buffer with
  an offset. \<open>Header i\<close> is \<open>req->headers[i]\<close>, so a write through a pointer into it would
  change the request.
\<close>

datatype buffer = Header nat | HeaderCopy

type_synonym ptr = "buffer \<times> nat"

record store =
  req :: Request
  header_copy :: string
  stdout :: string

text \<open>
  The contents of a buffer are its characters up to the last terminator written by
  \<open>strcpy\<close>; once NUL has been written in the middle, the list holds the character 0
  there and the C strings in the buffer are read by \<open>c_str\<close>.
\<close>

fun buffer_of :: "store \<Rightarrow> buffer \<Rightarrow> string" where
  "buffer_of s (Header i) = headers (req s) ! i"
| "buffer_of s HeaderCopy = header_copy s"

fun set_buffer :: "buffer \<Rightarrow> string \<Rightarrow> store \<Rightarrow> store" where
  "set_buffer (Header i) cs s = s\<lparr>req := (req s)\<lparr>headers := (headers (req s))[i := cs]\<rparr>\<rparr>"
| "set_buffer HeaderCopy cs s = s\<lparr>header_copy := cs\<rparr>"

text \<open>\<open>*p\<close>: the character at a pointer; the terminator at the end of the contents.\<close>

definition deref :: "store \<Rightarrow> ptr \<Rightarrow> char" where
  "deref s p = (let cs = buffer_of s (fst p) in if snd p < length cs then cs ! snd p else CHR 0x00)"

text \<open>\<open>*p = c\<close>.\<close>

definition poke :: "ptr \<Rightarrow> char \<Rightarrow> store \<Rightarrow> store" where
  "poke p c s = set_buffer (fst p) ((buffer_of s (fst p))[snd p := c]) s"

text \<open>The C string at a pointer: what \<open>printf("%s", p)\<close> writes.\<close>

definition c_str :: "store \<Rightarrow> ptr \<Rightarrow> string" where
  "c_str s p = takeWhile (\<lambda>c. c \<noteq> CHR 0x00) (drop (snd p) (buffer_of s (fst p)))"

text \<open>
  \<open>strcpy(dst, src)\<close> into a whole array \<open>dst\<close>. The one call of the generators copies a
  header slot of \<open>MAX_HEADER_LEN\<close> bytes into \<open>header_copy\<close>, which has the same size.
\<close>

definition strcpy :: "buffer \<Rightarrow> ptr \<Rightarrow> store \<Rightarrow> store" where
  "strcpy dst src s = set_buffer dst (c_str s src) s"

text \<open>
  \<open>strchr(p, ch)\<close>: a pointer to the first \<open>ch\<close> at or after \<open>p\<close>, or \<open>None\<close> for the
  null pointer when the string ends first.
\<close>

function strchr :: "store \<Rightarrow> ptr \<Rightarrow> char \<Rightarrow> ptr option" where
  "strchr s p ch =
     (if deref s p = ch then Some p
      else if deref s p = CHR 0x00 then None
      else strchr s (fst p, snd p + 1) ch)"
  by pat_completeness auto
termination
  by (relation "measure (\<lambda>(s, p, ch). length (buffer_of s (fst p)) - snd p)")
     (auto simp add: deref_def Let_def split: if_splits)

declare strchr.simps [simp del]

text \<open>\<open>while(*value == ' ') value++;\<close> from the pointer \<open>p\<close>: the final pointer.\<close>

function skip_spaces :: "store \<Rightarrow> ptr \<Rightarrow> ptr" where
  "skip_spaces s p =
     (if deref s p = CHR '' '' then skip_spaces s (fst p, snd p + 1) else p)"
  by pat_completeness auto
termination
  by (relation "measure (\<lambda>(s, p). length (buffer_of s (fst p)) - snd p)")
     (auto simp add: deref_def Let_def split: if_splits)

declare skip_spaces.simps [simp del]

text \<open>
  \<open>printf\<close> with the formatted text as argument: the text is appended to standard output.
\<close>

definition printf :: "string \<Rightarrow> store \<Rightarrow> store" where
  "printf text s = s\<lparr>stdout := stdout s @ text\<rparr>"

text \<open>\<open>%ld\<close>: a \<open>long\<close> in decimal.\<close>

fun digits :: "nat \<Rightarrow> string" where
  "digits n = (if n < 10 then [char_of (48 + n)] else digits (n div 10) @ [char_of (48 + n mod 10)])"

declare digits.simps [simp del]

definition show_long :: "int \<Rightarrow> string" where
  "show_long n = (if n < 0 then CHR ''-'' # digits (nat (- n)) else digits (nat n))"

text \<open>The colour macros (lines 32-36), and the two characters that a string cannot show.\<close>

definition COLOR_RESET :: string where "COLOR_RESET = CHR 0x1B # ''[0m''"
definition COLOR_GREEN :: string where "COLOR_GREEN = CHR 0x1B # ''[32m''"
definition COLOR_YELLOW :: string where "COLOR_YELLOW = CHR 0x1B # ''[33m''"

abbreviation sq :: string where "sq \<equiv> [CHR 0x27]"
abbreviation bs :: string where "bs \<equiv> [CHR 0x5C]"

text \<open>
  \<open>sq\<close> is the apostrophe and \<open>bs\<close> the backslash: the C literal \<open>" \\\n  -H '%s'"\<close>
  is a space, a backslash, a newline, two spaces, \<open>-H\<close>, a space and the argument between
  apostrophes.
\<close>

lemma printf_simps [simp]:
  "req (printf t s) = req s"
  "header_copy (printf t s) = header_copy s"
  "stdout (printf t s) = stdout s @ t"
  by (simp_all add: printf_def)

subsection \<open>cURL (lines 97-117)\<close>

text \<open>The \<open>for\<close> loop over the headers, from index \<open>i\<close>.\<close>

function curl_headers :: "nat \<Rightarrow> store \<Rightarrow> store" where
  "curl_headers i s =
     (if int i < header_count (req s)
      then curl_headers (i + 1)
             (printf ('' '' @ bs @ ''\<newline>  -H '' @ sq @ headers (req s) ! i @ sq) s)
      else s)"
  by pat_completeness auto
termination
  by (relation "measure (\<lambda>(i, s). nat (header_count (req s)) - i)") auto

declare curl_headers.simps [simp del]

definition generate_curl_code :: "store \<Rightarrow> store" where
  "generate_curl_code s0 =
     (let s = printf (''\<newline>'' @ COLOR_GREEN @ ''=== cURL ==='' @ COLOR_RESET @ ''\<newline>'') s0;
          s = printf (''curl -X '' @ method (req s) @ '' '' @ sq @ url (req s) @ sq) s;
          s = curl_headers 0 s;
          s = (if body (req s) \<noteq> []
               then printf ('' '' @ bs @ ''\<newline>  -d '' @ sq @ body (req s) @ sq) s else s);
          s = (if follow_redirects (req s) \<noteq> 0
               then printf ('' '' @ bs @ ''\<newline>  -L'') s else s);
          s = (if timeout (req s) > 0
               then printf ('' '' @ bs @ ''\<newline>  --max-time '' @ show_long (timeout (req s))) s
               else s);
          s = printf ''\<newline>\<newline>'' s
      in s)"

subsection \<open>Splitting a header (lines 127-133, 165-171, 214-220 and 257-263)\<close>

text \<open>
  The loop bodies of the other four generators start with the same statements: copy
  header \<open>i\<close> into \<open>header_copy\<close>, look for the first colon in the copy and, when there is
  one, overwrite it with NUL and move \<open>value\<close> past it and past the spaces after it.
  \<open>split_header\<close> returns the store after these statements and \<open>value\<close>, or \<open>None\<close> when
  \<open>colon\<close> is null and the body of the \<open>if\<close> is skipped.
\<close>

definition split_header :: "nat \<Rightarrow> store \<Rightarrow> store \<times> ptr option" where
  "split_header i s0 =
     (let s = strcpy HeaderCopy (Header i, 0) s0;
          colon = strchr s (HeaderCopy, 0) CHR '':''
      in case colon of
           None \<Rightarrow> (s, None)
         | Some p \<Rightarrow>
             (let s = poke p (CHR 0x00) s;
                  value = skip_spaces s (fst p, snd p + 1)
              in (s, Some value)))"

text \<open>
  The loops below test \<open>i < req->header_count\<close> in the store that the body returns, so
  their termination rests on the body leaving the request alone: \<open>strchr\<close> stays in the
  buffer it is given, and the buffer given is \<open>header_copy\<close>.
\<close>

lemma set_buffer_HeaderCopy [simp]:
  "req (set_buffer HeaderCopy cs s) = req s"
  "stdout (set_buffer HeaderCopy cs s) = stdout s"
  "header_copy (set_buffer HeaderCopy cs s) = cs"
  by simp_all

lemma strchr_buffer: "strchr s p ch = Some q \<Longrightarrow> fst q = fst p"
proof (induction s p ch rule: strchr.induct)
  case (1 s p ch)
  show ?case
  proof (cases "deref s p = ch")
    case True
    with "1.prems" show ?thesis by (simp add: strchr.simps [of s p ch])
  next
    case False
    with "1.prems" have nz: "deref s p \<noteq> CHR 0x00"
      by (auto simp add: strchr.simps [of s p ch] split: if_splits)
    from "1.prems" False nz have "strchr s (fst p, snd p + 1) ch = Some q"
      by (simp add: strchr.simps [of s p ch])
    with "1.IH" [OF False nz] show ?thesis by simp
  qed
qed

lemma split_header_frame [simp]:
  "req (fst (split_header i s)) = req s"
  "stdout (fst (split_header i s)) = stdout s"
proof -
  let ?s = "strcpy HeaderCopy (Header i, 0) s"
  have a: "req ?s = req s" "stdout ?s = stdout s"
    by (simp_all add: strcpy_def)
  have b: "req (poke p c ?s) = req s \<and> stdout (poke p c ?s) = stdout s"
    if "strchr ?s (HeaderCopy, 0) CHR '':'' = Some p" for p c
  proof -
    from strchr_buffer [OF that] have "fst p = HeaderCopy" by simp
    then show ?thesis by (simp add: poke_def a)
  qed
  show "req (fst (split_header i s)) = req s"
    by (simp add: split_header_def Let_def a b split: option.splits)
  show "stdout (fst (split_header i s)) = stdout s"
    by (simp add: split_header_def Let_def a b split: option.splits)
qed

subsection \<open>JavaScript (lines 119-155)\<close>

text \<open>The body of the \<open>for\<close> loop at index \<open>i\<close> (lines 127-137).\<close>

definition javascript_header :: "nat \<Rightarrow> store \<Rightarrow> store" where
  "javascript_header i s0 =
     (case split_header i s0 of
        (s, None) \<Rightarrow> s
      | (s, Some value) \<Rightarrow>
          (let s = printf (''    '' @ sq @ c_str s (HeaderCopy, 0) @ sq @ '': '' @ sq @
                           c_str s value @ sq) s;
               s = (if int i < header_count (req s) - 1 then printf '','' s else s);
               s = printf ''\<newline>'' s
           in s))"

lemma javascript_header_req [simp]: "req (javascript_header i s) = req s"
proof (cases "split_header i s")
  case (Pair s' v)
  then have "req s' = req s"
    using split_header_frame(1) [of i s] by simp
  with Pair show ?thesis
    by (simp add: javascript_header_def Let_def split: option.splits)
qed

function javascript_headers :: "nat \<Rightarrow> store \<Rightarrow> store" where
  "javascript_headers i s =
     (if int i < header_count (req s)
      then javascript_headers (i + 1) (javascript_header i s)
      else s)"
  by pat_completeness auto
termination
  by (relation "measure (\<lambda>(i, s). nat (header_count (req s)) - i)") auto

declare javascript_headers.simps [simp del]

definition generate_javascript_code :: "store \<Rightarrow> store" where
  "generate_javascript_code s0 =
     (let s = printf (COLOR_GREEN @ ''=== JavaScript (Fetch API) ==='' @ COLOR_RESET @ ''\<newline>'') s0;
          s = printf (''fetch('' @ sq @ url (req s) @ sq @ '', {\<newline>'') s;
          s = printf (''  method: '' @ sq @ method (req s) @ sq @ '',\<newline>'') s;
          s = (if header_count (req s) > 0
               then (let s = printf ''  headers: {\<newline>'' s;
                         s = javascript_headers 0 s;
                         s = printf ''  },\<newline>'' s
                     in s)
               else s);
          s = (if body (req s) \<noteq> []
               then (if hd (body (req s)) = CHR ''{'' \<or> hd (body (req s)) = CHR ''[''
                     then printf (''  body: JSON.stringify('' @ body (req s) @ '')\<newline>'') s
                     else printf (''  body: '' @ sq @ body (req s) @ sq @ ''\<newline>'') s)
               else s);
          s = printf ''})\<newline>'' s;
          s = printf ''  .then(response => response.json())\<newline>'' s;
          s = printf ''  .then(data => console.log(data))\<newline>'' s;
          s = printf ''  .catch(error => console.error('Error:', error));\<newline>\<newline>'' s
      in s)"

subsection \<open>Python (lines 157-194)\<close>

text \<open>
  The ternary chain of \<open>strcmp\<close> tests that picks the call name in the Python and the
  Rust renderer (lines 185-188 and 208-211); \<open>strcmp(a, b) == 0\<close> is equality of the two
  strings.
\<close>

definition method_call :: "string \<Rightarrow> string" where
  "method_call m =
     (if m = ''GET'' then ''get''
      else if m = ''POST'' then ''post''
      else if m = ''PUT'' then ''put''
      else if m = ''DELETE'' then ''delete''
      else ''request'')"

text \<open>The body of the \<open>for\<close> loop at index \<open>i\<close> (lines 165-175).\<close>

definition python_header :: "nat \<Rightarrow> store \<Rightarrow> store" where
  "python_header i s0 =
     (case split_header i s0 of
        (s, None) \<Rightarrow> s
      | (s, Some value) \<Rightarrow>
          (let s = printf (''    '' @ sq @ c_str s (HeaderCopy, 0) @ sq @ '': '' @ sq @
                           c_str s value @ sq) s;
               s = (if int i < header_count (req s) - 1 then printf '','' s else s);
               s = printf ''\<newline>'' s
           in s))"

lemma python_header_req [simp]: "req (python_header i s) = req s"
proof (cases "split_header i s")
  case (Pair s' v)
  then have "req s' = req s"
    using split_header_frame(1) [of i s] by simp
  with Pair show ?thesis
    by (simp add: python_header_def Let_def split: option.splits)
qed

function python_headers :: "nat \<Rightarrow> store \<Rightarrow> store" where
  "python_headers i s =
     (if int i < header_count (req s)
      then python_headers (i + 1) (python_header i s)
      else s)"
  by pat_completeness auto
termination
  by (relation "measure (\<lambda>(i, s). nat (header_count (req s)) - i)") auto

declare python_headers.simps [simp del]

definition generate_python_code :: "store \<Rightarrow> store" where
  "generate_python_code s0 =
     (let s = printf (COLOR_GREEN @ ''=== Python (requests) ==='' @ COLOR_RESET @ ''\<newline>'') s0;
          s = printf ''import requests\<newline>import json\<newline>\<newline>'' s;
          s = printf (''url = '' @ sq @ url (req s) @ sq @ ''\<newline>'') s;
          s = (if header_count (req s) > 0
               then (let s = printf ''headers = {\<newline>'' s;
                         s = python_headers 0 s;
                         s = printf ''}\<newline>\<newline>'' s
                     in s)
               else s);
          s = (if body (req s) \<noteq> []
               then printf (''data = '' @ sq @ sq @ sq @ body (req s) @ sq @ sq @ sq @
                            ''\<newline>\<newline>'') s
               else s);
          s = printf (''response = requests.'' @ method_call (method (req s)) @ ''(url'') s;
          s = (if header_count (req s) > 0 then printf '', headers=headers'' s else s);
          s = (if body (req s) \<noteq> [] then printf '', data=data'' s else s);
          s = printf '')\<newline>'' s;
          s = printf ''print(response.json())\<newline>\<newline>'' s
      in s)"

subsection \<open>Rust (lines 196-235)\<close>

text \<open>The body of the \<open>for\<close> loop at index \<open>i\<close> (lines 214-222).\<close>

definition rust_header :: "nat \<Rightarrow> store \<Rightarrow> store" where
  "rust_header i s0 =
     (case split_header i s0 of
        (s, None) \<Rightarrow> s
      | (s, Some value) \<Rightarrow>
          printf (''        .header(\"'' @ c_str s (HeaderCopy, 0) @ ''\", \"'' @
                  c_str s value @ ''\")\<newline>'') s)"

lemma rust_header_req [simp]: "req (rust_header i s) = req s"
proof (cases "split_header i s")
  case (Pair s' v)
  then have "req s' = req s"
    using split_header_frame(1) [of i s] by simp
  with Pair show ?thesis
    by (simp add: rust_header_def split: option.splits)
qed

function rust_headers :: "nat \<Rightarrow> store \<Rightarrow> store" where
  "rust_headers i s =
     (if int i < header_count (req s)
      then rust_headers (i + 1) (rust_header i s)
      else s)"
  by pat_completeness auto
termination
  by (relation "measure (\<lambda>(i, s). nat (header_count (req s)) - i)") auto

declare rust_headers.simps [simp del]

definition generate_rust_code :: "store \<Rightarrow> store" where
  "generate_rust_code s0 =
     (let s = printf (COLOR_GREEN @ ''=== Rust (reqwest) ==='' @ COLOR_RESET @ ''\<newline>'') s0;
          s = printf ''use reqwest;\<newline>\<newline>'' s;
          s = printf ''#[tokio::main]\<newline>'' s;
          s = printf ''async fn main() -> Result<(), Box<dyn std::error::Error>> {\<newline>'' s;
          s = printf ''    let client = reqwest::Client::new();\<newline>'' s;
          s = (if body (req s) \<noteq> []
               then printf (''    let body = r#\"'' @ body (req s) @ ''\"#;\<newline>\<newline>'') s
               else s);
          s = printf (''    let response = client.'' @ method_call (method (req s)) @ ''(\"'' @
                      url (req s) @ ''\")\<newline>'') s;
          s = rust_headers 0 s;
          s = (if body (req s) \<noteq> [] then printf ''        .body(body)\<newline>'' s else s);
          s = printf ''        .send()\<newline>'' s;
          s = printf ''        .await?;\<newline>\<newline>'' s;
          s = printf ''    let body = response.text().await?;\<newline>'' s;
          s = printf ''    println!(\"{}\", body);\<newline>'' s;
          s = printf ''    Ok(())\<newline>'' s;
          s = printf ''}\<newline>\<newline>'' s
      in s)"

subsection \<open>Java (lines 237-284)\<close>

text \<open>The body of the \<open>for\<close> loop at index \<open>i\<close> (lines 257-265).\<close>

definition java_header :: "nat \<Rightarrow> store \<Rightarrow> store" where
  "java_header i s0 =
     (case split_header i s0 of
        (s, None) \<Rightarrow> s
      | (s, Some value) \<Rightarrow>
          printf (''            .header(\"'' @ c_str s (HeaderCopy, 0) @ ''\", \"'' @
                  c_str s value @ ''\")\<newline>'') s)"

lemma java_header_req [simp]: "req (java_header i s) = req s"
proof (cases "split_header i s")
  case (Pair s' v)
  then have "req s' = req s"
    using split_header_frame(1) [of i s] by simp
  with Pair show ?thesis
    by (simp add: java_header_def split: option.splits)
qed

function java_headers :: "nat \<Rightarrow> store \<Rightarrow> store" where
  "java_headers i s =
     (if int i < header_count (req s)
      then java_headers (i + 1) (java_header i s)
      else s)"
  by pat_completeness auto
termination
  by (relation "measure (\<lambda>(i, s). nat (header_count (req s)) - i)") auto

declare java_headers.simps [simp del]

text \<open>The ternary chain of the Java renderer for a request with a body (lines 270-273).\<close>

definition java_publisher :: "string \<Rightarrow> string" where
  "java_publisher m =
     (if m = ''GET'' then ''GET''
      else if m = ''POST'' then ''POST''
      else if m = ''PUT'' then ''PUT''
      else if m = ''DELETE'' then ''DELETE''
      else ''method'')"

definition generate_java_code :: "store \<Rightarrow> store" where
  "generate_java_code s0 =
     (let s = printf (COLOR_GREEN @ ''=== Java (HttpClient) ==='' @ COLOR_RESET @ ''\<newline>'') s0;
          s = printf ''import java.net.URI;\<newline>'' s;
          s = printf ''import java.net.http.HttpClient;\<newline>'' s;
          s = printf ''import java.net.http.HttpRequest;\<newline>'' s;
          s = printf ''import java.net.http.HttpResponse;\<newline>\<newline>'' s;
          s = printf ''public class HttpExample {\<newline>'' s;
          s = printf ''    public static void main(String[] args) throws Exception {\<newline>'' s;
          s = printf ''        HttpClient client = HttpClient.newHttpClient();\<newline>'' s;
          s = (if body (req s) \<noteq> []
               then (let s = printf ''        String jsonBody = \"\"\"\<newline>'' s;
                         s = printf (''            '' @ body (req s) @ ''\<newline>'') s;
                         s = printf ''            \"\"\";\<newline>\<newline>'' s
                     in s)
               else s);
          s = printf ''        HttpRequest.Builder builder = HttpRequest.newBuilder()\<newline>'' s;
          s = printf (''            .uri(URI.create(\"'' @ url (req s) @ ''\"))\<newline>'') s;
          s = java_headers 0 s;
          s = (if body (req s) \<noteq> []
               then printf (''            .'' @ java_publisher (method (req s)) @
                            ''(HttpRequest.BodyPublishers.ofString(jsonBody));\<newline>'') s
               else printf (''            .'' @ method (req s) @
                            ''(HttpRequest.BodyPublishers.noBody());\<newline>'') s);
          s = printf ''\<newline>        HttpRequest request = builder.build();\<newline>'' s;
          s = printf ''        HttpResponse<String> response = client.send(request,\<newline>'' s;
          s = printf ''            HttpResponse.BodyHandlers.ofString());\<newline>'' s;
          s = printf ''        System.out.println(response.body());\<newline>'' s;
          s = printf ''    }\<newline>'' s;
          s = printf ''}\<newline>\<newline>'' s
      in s)"

section \<open>The text written, as a function of the request\<close>

text \<open>
  In the words of the specification (\<open>splitHeader\<close>): a header is split at its first
  colon into the key before it and the value after it, without the spaces that follow
  the colon; a header without a colon has no key and value. The header is the C string
  in the slot, so it ends at a character 0. Lemma \<open>split_header_key_value\<close> shows that the
  statements of \<open>split_header\<close> compute this.
\<close>

definition key_value :: "string \<Rightarrow> (string \<times> string) option" where
  "key_value raw =
     (let h = takeWhile (\<lambda>c. c \<noteq> CHR 0x00) raw in
      if CHR '':'' \<in> set h
      then Some (takeWhile (\<lambda>c. c \<noteq> CHR '':'') h,
                 dropWhile (\<lambda>c. c = CHR '' '') (tl (dropWhile (\<lambda>c. c \<noteq> CHR '':'') h)))
      else None)"

text \<open>The headers in use: the slots below \<open>header_count\<close>, in order.\<close>

definition header_list :: "Request \<Rightarrow> string list" where
  "header_list r = map (\<lambda>i. headers r ! i) [0..<nat (header_count r)]"

subsection \<open>What \<open>strchr\<close> and the loop over the spaces find\<close>

text \<open>A header slot that holds no character 0 is the C string read from its start.\<close>

lemma c_str_header:
  "CHR 0x00 \<notin> set (headers (req s) ! i) \<Longrightarrow> c_str s (Header i, 0) = headers (req s) ! i"
  by (auto simp add: c_str_def)

lemma deref_inside: "k < length (buffer_of s b) \<Longrightarrow> deref s (b, k) = buffer_of s b ! k"
  by (simp add: deref_def)

lemma deref_outside: "length (buffer_of s b) \<le> k \<Longrightarrow> deref s (b, k) = CHR 0x00"
  by (simp add: deref_def)

lemma strchr_find:
  assumes "CHR 0x00 \<notin> set (buffer_of s b)" and "ch \<noteq> CHR 0x00"
  shows "strchr s (b, k) ch =
           (if ch \<in> set (drop k (buffer_of s b))
            then Some (b, k + length (takeWhile (\<lambda>c. c \<noteq> ch) (drop k (buffer_of s b))))
            else None)"
proof (induction "length (buffer_of s b) - k" arbitrary: k)
  case 0
  then have "deref s (b, k) = CHR 0x00" by (simp add: deref_outside)
  with 0 assms(2) show ?case
    by (simp add: strchr.simps [of s "(b, k)" ch])
next
  case (Suc n)
  then have k: "k < length (buffer_of s b)" by simp
  then have d: "deref s (b, k) = buffer_of s b ! k" by (rule deref_inside)
  have nz: "buffer_of s b ! k \<noteq> CHR 0x00"
    using assms(1) k by (metis nth_mem)
  have dr: "drop k (buffer_of s b) = buffer_of s b ! k # drop (Suc k) (buffer_of s b)"
    using k by (simp add: Cons_nth_drop_Suc)
  show ?case
  proof (cases "buffer_of s b ! k = ch")
    case True
    then show ?thesis
      by (simp add: strchr.simps [of s "(b, k)" ch] d dr)
  next
    case False
    have "n = length (buffer_of s b) - Suc k" using Suc(2) by simp
    from Suc(1) [OF this] False nz show ?thesis
      by (simp add: strchr.simps [of s "(b, k)" ch] d dr)
  qed
qed

lemma skip_spaces_find:
  "skip_spaces s (b, k) =
     (b, k + length (takeWhile (\<lambda>c. c = CHR '' '') (drop k (buffer_of s b))))"
proof (induction "length (buffer_of s b) - k" arbitrary: k)
  case 0
  then have "deref s (b, k) = CHR 0x00" by (simp add: deref_outside)
  with 0 show ?case
    by (simp add: skip_spaces.simps [of s "(b, k)"])
next
  case (Suc n)
  then have k: "k < length (buffer_of s b)" by simp
  then have d: "deref s (b, k) = buffer_of s b ! k" by (rule deref_inside)
  have dr: "drop k (buffer_of s b) = buffer_of s b ! k # drop (Suc k) (buffer_of s b)"
    using k by (simp add: Cons_nth_drop_Suc)
  have "n = length (buffer_of s b) - Suc k" using Suc(2) by simp
  from Suc(1) [OF this] show ?case
    by (simp add: skip_spaces.simps [of s "(b, k)"] d dr)
qed

lemma length_takeWhile_lt:
  "x \<in> set xs \<Longrightarrow> \<not> P x \<Longrightarrow> length (takeWhile P xs) < length xs"
  by (induction xs) auto

lemma split_header_key_value:
  "(case split_header i s of
      (s', v) \<Rightarrow> map_option (\<lambda>p. (c_str s' (HeaderCopy, 0), c_str s' p)) v) =
   key_value (headers (req s) ! i)"
proof -
  define h where "h = takeWhile (\<lambda>c. c \<noteq> CHR 0x00) (headers (req s) ! i)"
  define s1 where "s1 = strcpy HeaderCopy (Header i, 0) s"
  define n where "n = length (takeWhile (\<lambda>c. c \<noteq> CHR '':'') h)"
  have nonul: "CHR 0x00 \<notin> set h"
    unfolding h_def by (auto dest: set_takeWhileD)
  have hc: "header_copy s1 = h"
    by (simp add: s1_def strcpy_def c_str_def h_def)
  have colon: "strchr s1 (HeaderCopy, 0) CHR '':'' =
                 (if CHR '':'' \<in> set h then Some (HeaderCopy, n) else None)"
    using strchr_find [of s1 HeaderCopy "CHR '':''" 0] nonul
    by (simp add: hc n_def)
  show ?thesis
  proof (cases "CHR '':'' \<in> set h")
    case False
    then show ?thesis
      by (simp add: split_header_def Let_def colon key_value_def
            s1_def [symmetric] h_def [symmetric])
  next
    case True
    define s2 where "s2 = poke (HeaderCopy, n) (CHR 0x00) s1"
    define m where "m = length (takeWhile (\<lambda>c. c = CHR '' '') (drop (Suc n) h))"
    have nlt: "n < length h"
      using True unfolding n_def by (simp add: length_takeWhile_lt)
    have tk: "take n h = takeWhile (\<lambda>c. c \<noteq> CHR '':'') h"
      unfolding n_def by (rule takeWhile_eq_take [symmetric])
    have dr: "drop n h = dropWhile (\<lambda>c. c \<noteq> CHR '':'') h"
      unfolding n_def by (rule dropWhile_eq_drop [symmetric])
    have b2: "header_copy s2 = h[n := CHR 0x00]"
      by (simp add: s2_def poke_def hc)
    have val: "skip_spaces s2 (HeaderCopy, Suc n) = (HeaderCopy, Suc n + m)"
      using skip_spaces_find [of s2 HeaderCopy "Suc n"]
      by (simp add: b2 m_def)
    have nonul_take: "\<forall>x \<in> set (take n h). x \<noteq> CHR 0x00"
      using nonul by (auto dest: in_set_takeD)
    have "takeWhile (\<lambda>c. c \<noteq> CHR 0x00) (h[n := CHR 0x00]) = take n h"
      using nlt nonul_take by (simp add: upd_conv_take_nth_drop)
    then have key: "c_str s2 (HeaderCopy, 0) = takeWhile (\<lambda>c. c \<noteq> CHR '':'') h"
      by (simp add: c_str_def b2 tk)
    have "\<forall>x \<in> set (drop (Suc n + m) h). x \<noteq> CHR 0x00"
      using nonul by (auto dest: in_set_dropD)
    then have "takeWhile (\<lambda>c. c \<noteq> CHR 0x00) (drop (Suc n + m) h) = drop (Suc n + m) h"
      by simp
    moreover have "drop (Suc n + m) h = dropWhile (\<lambda>c. c = CHR '' '') (drop (Suc n) h)"
      unfolding m_def by (simp add: dropWhile_eq_drop add.commute)
    moreover have "drop (Suc n) h = tl (dropWhile (\<lambda>c. c \<noteq> CHR '':'') h)"
      by (simp add: dr [symmetric] drop_Suc tl_drop)
    ultimately have vstr: "c_str s2 (HeaderCopy, Suc n + m) =
        dropWhile (\<lambda>c. c = CHR '' '') (tl (dropWhile (\<lambda>c. c \<noteq> CHR '':'') h))"
      by (simp add: c_str_def b2)
    have "split_header i s = (s2, Some (HeaderCopy, Suc n + m))"
      using True val
      by (simp add: split_header_def Let_def s1_def [symmetric] colon s2_def [symmetric])
    with True key vstr show ?thesis
      by (simp add: key_value_def h_def [symmetric] Let_def)
  qed
qed

lemma key_value_no_colon: "CHR '':'' \<notin> set h \<Longrightarrow> key_value h = None"
  by (auto simp add: key_value_def Let_def dest: set_takeWhileD)

subsection \<open>The loops over the headers\<close>

text \<open>
  The text that the loop body writes for header \<open>i\<close>: in the JavaScript and the Python
  generator (the same line in both, with a comma except after the last index), in the
  Rust generator and in the Java generator.
\<close>

definition object_entry :: "Request \<Rightarrow> nat \<Rightarrow> string" where
  "object_entry r i =
     (case key_value (headers r ! i) of
        None \<Rightarrow> []
      | Some (k, v) \<Rightarrow>
          ''    '' @ sq @ k @ sq @ '': '' @ sq @ v @ sq @
          (if int i < header_count r - 1 then '','' else []) @ ''\<newline>'')"

definition rust_entry :: "string \<Rightarrow> string" where
  "rust_entry h =
     (case key_value h of
        None \<Rightarrow> []
      | Some (k, v) \<Rightarrow> ''        .header(\"'' @ k @ ''\", \"'' @ v @ ''\")\<newline>'')"

definition java_entry :: "string \<Rightarrow> string" where
  "java_entry h =
     (case key_value h of
        None \<Rightarrow> []
      | Some (k, v) \<Rightarrow> ''            .header(\"'' @ k @ ''\", \"'' @ v @ ''\")\<newline>'')"

lemma split_header_cases:
  obtains (none) s' where "split_header i s = (s', None)" "key_value (headers (req s) ! i) = None"
      "req s' = req s" "stdout s' = stdout s"
  | (some) s' p where "split_header i s = (s', Some p)"
      "key_value (headers (req s) ! i) = Some (c_str s' (HeaderCopy, 0), c_str s' p)"
      "req s' = req s" "stdout s' = stdout s"
proof (cases "split_header i s")
  case (Pair s' v)
  have f: "req s' = req s" "stdout s' = stdout s"
    using split_header_frame [of i s] Pair by simp_all
  show thesis
  proof (cases v)
    case None
    with Pair split_header_key_value [of i s] f none show thesis by simp
  next
    case (Some p)
    with Pair split_header_key_value [of i s] f some show thesis by simp
  qed
qed

lemma javascript_header_stdout:
  "stdout (javascript_header i s) = stdout s @ object_entry (req s) i"
  by (cases rule: split_header_cases [of i s])
     (simp_all add: javascript_header_def object_entry_def Let_def)

lemma python_header_stdout:
  "stdout (python_header i s) = stdout s @ object_entry (req s) i"
  by (cases rule: split_header_cases [of i s])
     (simp_all add: python_header_def object_entry_def Let_def)

lemma rust_header_stdout:
  "stdout (rust_header i s) = stdout s @ rust_entry (headers (req s) ! i)"
  by (cases rule: split_header_cases [of i s])
     (simp_all add: rust_header_def rust_entry_def)

lemma java_header_stdout:
  "stdout (java_header i s) = stdout s @ java_entry (headers (req s) ! i)"
  by (cases rule: split_header_cases [of i s])
     (simp_all add: java_header_def java_entry_def)

lemma upt_step: "int i < n \<Longrightarrow> [i..<nat n] = i # [i + 1..<nat n]"
  by (simp add: upt_conv_Cons)

lemma upt_done: "\<not> int i < n \<Longrightarrow> [i..<nat n] = []"
  by simp

lemma curl_headers_run:
  "req (curl_headers i s) = req s \<and>
   stdout (curl_headers i s) =
     stdout s @ concat (map (\<lambda>j. '' '' @ bs @ ''\<newline>  -H '' @ sq @ headers (req s) ! j @ sq)
                         [i..<nat (header_count (req s))])"
proof (induction i s rule: curl_headers.induct)
  case (1 i s)
  show ?case
  proof (cases "int i < header_count (req s)")
    case True
    with "1.IH" [OF True] show ?thesis
      by (simp add: curl_headers.simps [of i s] upt_step)
  next
    case False
    then show ?thesis
      by (simp add: curl_headers.simps [of i s] upt_done)
  qed
qed

lemma javascript_headers_run:
  "req (javascript_headers i s) = req s \<and>
   stdout (javascript_headers i s) =
     stdout s @ concat (map (object_entry (req s)) [i..<nat (header_count (req s))])"
proof (induction i s rule: javascript_headers.induct)
  case (1 i s)
  show ?case
  proof (cases "int i < header_count (req s)")
    case True
    with "1.IH" [OF True] show ?thesis
      by (simp add: javascript_headers.simps [of i s] upt_step javascript_header_stdout)
  next
    case False
    then show ?thesis
      by (simp add: javascript_headers.simps [of i s] upt_done)
  qed
qed

lemma python_headers_run:
  "req (python_headers i s) = req s \<and>
   stdout (python_headers i s) =
     stdout s @ concat (map (object_entry (req s)) [i..<nat (header_count (req s))])"
proof (induction i s rule: python_headers.induct)
  case (1 i s)
  show ?case
  proof (cases "int i < header_count (req s)")
    case True
    with "1.IH" [OF True] show ?thesis
      by (simp add: python_headers.simps [of i s] upt_step python_header_stdout)
  next
    case False
    then show ?thesis
      by (simp add: python_headers.simps [of i s] upt_done)
  qed
qed

lemma rust_headers_run:
  "req (rust_headers i s) = req s \<and>
   stdout (rust_headers i s) =
     stdout s @ concat (map (\<lambda>j. rust_entry (headers (req s) ! j))
                         [i..<nat (header_count (req s))])"
proof (induction i s rule: rust_headers.induct)
  case (1 i s)
  show ?case
  proof (cases "int i < header_count (req s)")
    case True
    with "1.IH" [OF True] show ?thesis
      by (simp add: rust_headers.simps [of i s] upt_step rust_header_stdout)
  next
    case False
    then show ?thesis
      by (simp add: rust_headers.simps [of i s] upt_done)
  qed
qed

lemma java_headers_run:
  "req (java_headers i s) = req s \<and>
   stdout (java_headers i s) =
     stdout s @ concat (map (\<lambda>j. java_entry (headers (req s) ! j))
                         [i..<nat (header_count (req s))])"
proof (induction i s rule: java_headers.induct)
  case (1 i s)
  show ?case
  proof (cases "int i < header_count (req s)")
    case True
    with "1.IH" [OF True] show ?thesis
      by (simp add: java_headers.simps [of i s] upt_step java_header_stdout)
  next
    case False
    then show ?thesis
      by (simp add: java_headers.simps [of i s] upt_done)
  qed
qed

subsection \<open>The generators\<close>

text \<open>
  Each generator leaves the request as it was and appends to standard output a text
  that depends on the request only.
\<close>

lemma if_req: "req (if b then x else y) = (if b then req x else req y)"
  by simp

lemma if_stdout: "stdout (if b then x else y) = (if b then stdout x else stdout y)"
  by simp

lemma if_same_prefix: "(if b then xs @ ys else xs @ zs) = xs @ (if b then ys else zs)"
  by simp

lemma if_prefix_only: "(if b then xs @ ys else xs) = xs @ (if b then ys else [])"
  by simp

lemma generate_curl_code_req: "req (generate_curl_code s) = req s"
  unfolding generate_curl_code_def
  by (simp only: Let_def curl_headers_run printf_simps if_req if_cancel
        cong: let_weak_cong cong del: if_weak_cong)

lemma generate_curl_code_stdout:
  "stdout (generate_curl_code s) =
     stdout s @ ''\<newline>'' @ COLOR_GREEN @ ''=== cURL ==='' @ COLOR_RESET @ ''\<newline>'' @
     ''curl -X '' @ method (req s) @ '' '' @ sq @ url (req s) @ sq @
     concat (map (\<lambda>i. '' '' @ bs @ ''\<newline>  -H '' @ sq @ headers (req s) ! i @ sq)
                 [0..<nat (header_count (req s))]) @
     (if body (req s) \<noteq> [] then '' '' @ bs @ ''\<newline>  -d '' @ sq @ body (req s) @ sq else []) @
     (if follow_redirects (req s) \<noteq> 0 then '' '' @ bs @ ''\<newline>  -L'' else []) @
     (if timeout (req s) > 0
      then '' '' @ bs @ ''\<newline>  --max-time '' @ show_long (timeout (req s)) else []) @
     ''\<newline>\<newline>''"
  unfolding generate_curl_code_def
  by (simp only: Let_def curl_headers_run printf_simps if_req if_stdout if_same_prefix
        if_prefix_only append_assoc if_cancel cong: let_weak_cong cong del: if_weak_cong)

lemma generate_javascript_code_req: "req (generate_javascript_code s) = req s"
  unfolding generate_javascript_code_def
  by (simp only: Let_def javascript_headers_run printf_simps if_req if_cancel
        cong: let_weak_cong cong del: if_weak_cong)

lemma generate_javascript_code_stdout:
  "stdout (generate_javascript_code s) =
     stdout s @ COLOR_GREEN @ ''=== JavaScript (Fetch API) ==='' @ COLOR_RESET @ ''\<newline>'' @
     ''fetch('' @ sq @ url (req s) @ sq @ '', {\<newline>'' @
     ''  method: '' @ sq @ method (req s) @ sq @ '',\<newline>'' @
     (if header_count (req s) > 0
      then ''  headers: {\<newline>'' @
           concat (map (object_entry (req s)) [0..<nat (header_count (req s))]) @
           ''  },\<newline>''
      else []) @
     (if body (req s) \<noteq> []
      then (if hd (body (req s)) = CHR ''{'' \<or> hd (body (req s)) = CHR ''[''
            then ''  body: JSON.stringify('' @ body (req s) @ '')\<newline>''
            else ''  body: '' @ sq @ body (req s) @ sq @ ''\<newline>'')
      else []) @
     ''})\<newline>'' @
     ''  .then(response => response.json())\<newline>'' @
     ''  .then(data => console.log(data))\<newline>'' @
     ''  .catch(error => console.error('Error:', error));\<newline>\<newline>''"
  unfolding generate_javascript_code_def
  by (simp only: Let_def javascript_headers_run printf_simps if_req if_stdout if_same_prefix
        if_prefix_only append_assoc if_cancel cong: let_weak_cong cong del: if_weak_cong)

lemma generate_python_code_req: "req (generate_python_code s) = req s"
  unfolding generate_python_code_def
  by (simp only: Let_def python_headers_run printf_simps if_req if_cancel
        cong: let_weak_cong cong del: if_weak_cong)

lemma generate_python_code_stdout:
  "stdout (generate_python_code s) =
     stdout s @ COLOR_GREEN @ ''=== Python (requests) ==='' @ COLOR_RESET @ ''\<newline>'' @
     ''import requests\<newline>import json\<newline>\<newline>'' @
     ''url = '' @ sq @ url (req s) @ sq @ ''\<newline>'' @
     (if header_count (req s) > 0
      then ''headers = {\<newline>'' @
           concat (map (object_entry (req s)) [0..<nat (header_count (req s))]) @
           ''}\<newline>\<newline>''
      else []) @
     (if body (req s) \<noteq> []
      then ''data = '' @ sq @ sq @ sq @ body (req s) @ sq @ sq @ sq @ ''\<newline>\<newline>''
      else []) @
     ''response = requests.'' @ method_call (method (req s)) @ ''(url'' @
     (if header_count (req s) > 0 then '', headers=headers'' else []) @
     (if body (req s) \<noteq> [] then '', data=data'' else []) @
     '')\<newline>'' @
     ''print(response.json())\<newline>\<newline>''"
  unfolding generate_python_code_def
  by (simp only: Let_def python_headers_run printf_simps if_req if_stdout if_same_prefix
        if_prefix_only append_assoc if_cancel cong: let_weak_cong cong del: if_weak_cong)

lemma generate_rust_code_req: "req (generate_rust_code s) = req s"
  unfolding generate_rust_code_def
  by (simp only: Let_def rust_headers_run printf_simps if_req if_cancel
        cong: let_weak_cong cong del: if_weak_cong)

lemma generate_rust_code_stdout:
  "stdout (generate_rust_code s) =
     stdout s @ COLOR_GREEN @ ''=== Rust (reqwest) ==='' @ COLOR_RESET @ ''\<newline>'' @
     ''use reqwest;\<newline>\<newline>'' @
     ''#[tokio::main]\<newline>'' @
     ''async fn main() -> Result<(), Box<dyn std::error::Error>> {\<newline>'' @
     ''    let client = reqwest::Client::new();\<newline>'' @
     (if body (req s) \<noteq> []
      then ''    let body = r#\"'' @ body (req s) @ ''\"#;\<newline>\<newline>'' else []) @
     ''    let response = client.'' @ method_call (method (req s)) @ ''(\"'' @
     url (req s) @ ''\")\<newline>'' @
     concat (map (\<lambda>i. rust_entry (headers (req s) ! i)) [0..<nat (header_count (req s))]) @
     (if body (req s) \<noteq> [] then ''        .body(body)\<newline>'' else []) @
     ''        .send()\<newline>'' @
     ''        .await?;\<newline>\<newline>'' @
     ''    let body = response.text().await?;\<newline>'' @
     ''    println!(\"{}\", body);\<newline>'' @
     ''    Ok(())\<newline>'' @
     ''}\<newline>\<newline>''"
  unfolding generate_rust_code_def
  by (simp only: Let_def rust_headers_run printf_simps if_req if_stdout if_same_prefix
        if_prefix_only append_assoc if_cancel cong: let_weak_cong cong del: if_weak_cong)

lemma generate_java_code_req: "req (generate_java_code s) = req s"
  unfolding generate_java_code_def
  by (simp only: Let_def java_headers_run printf_simps if_req if_cancel
        cong: let_weak_cong cong del: if_weak_cong)

lemma generate_java_code_stdout:
  "stdout (generate_java_code s) =
     stdout s @ COLOR_GREEN @ ''=== Java (HttpClient) ==='' @ COLOR_RESET @ ''\<newline>'' @
     ''import java.net.URI;\<newline>'' @
     ''import java.net.http.HttpClient;\<newline>'' @
     ''import java.net.http.HttpRequest;\<newline>'' @
     ''import java.net.http.HttpResponse;\<newline>\<newline>'' @
     ''public class HttpExample {\<newline>'' @
     ''    public static void main(String[] args) throws Exception {\<newline>'' @
     ''        HttpClient client = HttpClient.newHttpClient();\<newline>'' @
     (if body (req s) \<noteq> []
      then ''        String jsonBody = \"\"\"\<newline>'' @
           ''            '' @ body (req s) @ ''\<newline>'' @
           ''            \"\"\";\<newline>\<newline>''
      else []) @
     ''        HttpRequest.Builder builder = HttpRequest.newBuilder()\<newline>'' @
     ''            .uri(URI.create(\"'' @ url (req s) @ ''\"))\<newline>'' @
     concat (map (\<lambda>i. java_entry (headers (req s) ! i)) [0..<nat (header_count (req s))]) @
     (if body (req s) \<noteq> []
      then ''            .'' @ java_publisher (method (req s)) @
           ''(HttpRequest.BodyPublishers.ofString(jsonBody));\<newline>''
      else ''            .'' @ method (req s) @
           ''(HttpRequest.BodyPublishers.noBody());\<newline>'') @
     ''\<newline>        HttpRequest request = builder.build();\<newline>'' @
     ''        HttpResponse<String> response = client.send(request,\<newline>'' @
     ''            HttpResponse.BodyHandlers.ofString());\<newline>'' @
     ''        System.out.println(response.body());\<newline>'' @
     ''    }\<newline>'' @
     ''}\<newline>\<newline>''"
  unfolding generate_java_code_def
  by (simp only: Let_def java_headers_run printf_simps if_req if_stdout if_same_prefix
        if_prefix_only append_assoc if_cancel cong: let_weak_cong cong del: if_weak_cong)

section \<open>What the generators write\<close>

text \<open>
  Requests to run the generators on: the method, the headers in use and the body are
  given; the URL is fixed, redirects are followed and the timeout is 30 seconds. The
  header array has its \<open>MAX_HEADERS = 50\<close> slots, the unused ones empty. A run starts
  with nothing written.
\<close>

definition sample_request :: "string \<Rightarrow> string list \<Rightarrow> string \<Rightarrow> Request" where
  "sample_request m hs b =
     \<lparr>url = ''http://localhost:8080/api'', method = m,
      headers = hs @ replicate (50 - length hs) [], header_count = int (length hs),
      body = b, follow_redirects = 1, verbose = 0, timeout = 30, auth = []\<rparr>"

definition sample_store :: "Request \<Rightarrow> store" where
  "sample_store r = \<lparr>req = r, header_copy = [], stdout = []\<rparr>"

subsection \<open>cURL\<close>

text \<open>
  C8. For every request the cURL generator writes, after its banner line,
  \<open>curl -X <METHOD> '<url>'\<close>, then for each header in use, in order, a continuation and
  \<open>-H '<header>'\<close> with the header as it is, then \<open>-d '<body>'\<close> exactly when the body is
  not empty, then \<open>-L\<close> exactly when \<open>follow_redirects\<close> is set, then
  \<open>--max-time <timeout>\<close> exactly when the timeout is positive, and two newlines.
\<close>

theorem generate_curl_code_output:
  "stdout (generate_curl_code s) =
     stdout s @ ''\<newline>'' @ COLOR_GREEN @ ''=== cURL ==='' @ COLOR_RESET @ ''\<newline>'' @
     ''curl -X '' @ method (req s) @ '' '' @ sq @ url (req s) @ sq @
     concat (map (\<lambda>h. '' '' @ bs @ ''\<newline>  -H '' @ sq @ h @ sq) (header_list (req s))) @
     (if body (req s) \<noteq> [] then '' '' @ bs @ ''\<newline>  -d '' @ sq @ body (req s) @ sq else []) @
     (if follow_redirects (req s) \<noteq> 0 then '' '' @ bs @ ''\<newline>  -L'' else []) @
     (if timeout (req s) > 0
      then '' '' @ bs @ ''\<newline>  --max-time '' @ show_long (timeout (req s)) else []) @
     ''\<newline>\<newline>''"
  by (simp only: generate_curl_code_stdout header_list_def map_map comp_def)

text \<open>The theorem on a \<open>POST\<close> request with two headers and the body \<open>{}\<close>.\<close>

theorem generate_curl_code_output_witness:
  "stdout (generate_curl_code
     (sample_store (sample_request ''POST'' [''Accept: */*'', ''malformed-header''] ''{}''))) =
   ''\<newline>'' @ COLOR_GREEN @ ''=== cURL ==='' @ COLOR_RESET @ ''\<newline>'' @
   ''curl -X POST 'http://localhost:8080/api' '' @ bs @ ''\<newline>'' @
   ''  -H 'Accept: */*' '' @ bs @ ''\<newline>'' @
   ''  -H 'malformed-header' '' @ bs @ ''\<newline>'' @
   ''  -d '{}' '' @ bs @ ''\<newline>'' @
   ''  -L '' @ bs @ ''\<newline>'' @
   ''  --max-time 30\<newline>\<newline>''"
  by (subst generate_curl_code_output) code_simp

subsection \<open>The request after a generator has run\<close>

text \<open>
  C10. Each of the five generators returns with the request it was given: the URL, the
  method, the header slots, the header count, the body and the options are the same
  before and after. The only writes through a pointer go to \<open>header_copy\<close>.
\<close>

theorem generate_code_request_unchanged:
  "req (generate_curl_code s) = req s \<and>
   req (generate_javascript_code s) = req s \<and>
   req (generate_python_code s) = req s \<and>
   req (generate_rust_code s) = req s \<and>
   req (generate_java_code s) = req s"
  by (simp only: generate_curl_code_req generate_javascript_code_req generate_python_code_req
        generate_rust_code_req generate_java_code_req)

subsection \<open>Two well-formed headers\<close>

lemma header_list_two:
  assumes "header_list r = [a, b]"
  shows "header_count r = 2" and "headers r ! 0 = a" and "headers r ! Suc 0 = b"
proof -
  have "length (header_list r) = 2" by (simp add: assms)
  then have n: "nat (header_count r) = 2" by (simp add: header_list_def)
  then show "header_count r = 2" by simp
  from assms n have "map (\<lambda>i. headers r ! i) [0..<2] = [a, b]"
    by (simp add: header_list_def)
  moreover have "[0..<(2::nat)] = [0, Suc 0]" by (simp add: numeral_2_eq_2)
  ultimately show "headers r ! 0 = a" and "headers r ! Suc 0 = b" by simp_all
qed

lemma key_value_content_type:
  "key_value ''Content-Type: application/json'' = Some (''Content-Type'', ''application/json'')"
  by code_simp

lemma key_value_x_test: "key_value ''X-Test: 1'' = Some (''X-Test'', ''1'')"
  by code_simp

lemma object_entries_two:
  assumes "header_list r = [''Content-Type: application/json'', ''X-Test: 1'']"
  shows "concat (map (object_entry r) [0..<nat (header_count r)]) =
           ''    'Content-Type': 'application/json',\<newline>'' @ ''    'X-Test': '1'\<newline>''"
proof -
  note h = header_list_two [OF assms]
  have u: "[0..<(2::nat)] = [0, Suc 0]"
    by (simp add: numeral_2_eq_2)
  show ?thesis
    by (simp add: u object_entry_def h key_value_content_type key_value_x_test)
qed

text \<open>
  C6. For every request whose headers in use are \<open>Content-Type: application/json\<close> and
  \<open>X-Test: 1\<close>, in this order, the JavaScript and the Python generator each write two
  key/value lines, \<open>Content-Type\<close> with \<open>application/json\<close> and then \<open>X-Test\<close> with \<open>1\<close>, the
  values without the space after the colon; these are the pairs that splitting the headers
  at the first colon gives.
\<close>

theorem two_headers_key_value_pairs:
  assumes "header_list (req s) = [''Content-Type: application/json'', ''X-Test: 1'']"
  shows "stdout (generate_javascript_code s) =
           stdout s @ COLOR_GREEN @ ''=== JavaScript (Fetch API) ==='' @ COLOR_RESET @ ''\<newline>'' @
           ''fetch('' @ sq @ url (req s) @ sq @ '', {\<newline>'' @
           ''  method: '' @ sq @ method (req s) @ sq @ '',\<newline>'' @
           ''  headers: {\<newline>'' @
           ''    'Content-Type': 'application/json',\<newline>'' @
           ''    'X-Test': '1'\<newline>'' @
           ''  },\<newline>'' @
           (if body (req s) \<noteq> []
            then (if hd (body (req s)) = CHR ''{'' \<or> hd (body (req s)) = CHR ''[''
                  then ''  body: JSON.stringify('' @ body (req s) @ '')\<newline>''
                  else ''  body: '' @ sq @ body (req s) @ sq @ ''\<newline>'')
            else []) @
           ''})\<newline>'' @
           ''  .then(response => response.json())\<newline>'' @
           ''  .then(data => console.log(data))\<newline>'' @
           ''  .catch(error => console.error('Error:', error));\<newline>\<newline>'' \<and>
         stdout (generate_python_code s) =
           stdout s @ COLOR_GREEN @ ''=== Python (requests) ==='' @ COLOR_RESET @ ''\<newline>'' @
           ''import requests\<newline>import json\<newline>\<newline>'' @
           ''url = '' @ sq @ url (req s) @ sq @ ''\<newline>'' @
           ''headers = {\<newline>'' @
           ''    'Content-Type': 'application/json',\<newline>'' @
           ''    'X-Test': '1'\<newline>'' @
           ''}\<newline>\<newline>'' @
           (if body (req s) \<noteq> []
            then ''data = '' @ sq @ sq @ sq @ body (req s) @ sq @ sq @ sq @ ''\<newline>\<newline>''
            else []) @
           ''response = requests.'' @ method_call (method (req s)) @ ''(url'' @
           '', headers=headers'' @
           (if body (req s) \<noteq> [] then '', data=data'' else []) @
           '')\<newline>'' @
           ''print(response.json())\<newline>\<newline>'' \<and>
         List.map_filter key_value (header_list (req s)) =
           [(''Content-Type'', ''application/json''), (''X-Test'', ''1'')]"
proof (intro conjI)
  note e = object_entries_two [OF assms]
  have c: "header_count (req s) > 0"
    using header_list_two(1) [OF assms] by simp
  show "stdout (generate_javascript_code s) =
           stdout s @ COLOR_GREEN @ ''=== JavaScript (Fetch API) ==='' @ COLOR_RESET @ ''\<newline>'' @
           ''fetch('' @ sq @ url (req s) @ sq @ '', {\<newline>'' @
           ''  method: '' @ sq @ method (req s) @ sq @ '',\<newline>'' @
           ''  headers: {\<newline>'' @
           ''    'Content-Type': 'application/json',\<newline>'' @
           ''    'X-Test': '1'\<newline>'' @
           ''  },\<newline>'' @
           (if body (req s) \<noteq> []
            then (if hd (body (req s)) = CHR ''{'' \<or> hd (body (req s)) = CHR ''[''
                  then ''  body: JSON.stringify('' @ body (req s) @ '')\<newline>''
                  else ''  body: '' @ sq @ body (req s) @ sq @ ''\<newline>'')
            else []) @
           ''})\<newline>'' @
           ''  .then(response => response.json())\<newline>'' @
           ''  .then(data => console.log(data))\<newline>'' @
           ''  .catch(error => console.error('Error:', error));\<newline>\<newline>''"
    by (simp only: generate_javascript_code_stdout e c if_True append_assoc)
  show "stdout (generate_python_code s) =
           stdout s @ COLOR_GREEN @ ''=== Python (requests) ==='' @ COLOR_RESET @ ''\<newline>'' @
           ''import requests\<newline>import json\<newline>\<newline>'' @
           ''url = '' @ sq @ url (req s) @ sq @ ''\<newline>'' @
           ''headers = {\<newline>'' @
           ''    'Content-Type': 'application/json',\<newline>'' @
           ''    'X-Test': '1'\<newline>'' @
           ''}\<newline>\<newline>'' @
           (if body (req s) \<noteq> []
            then ''data = '' @ sq @ sq @ sq @ body (req s) @ sq @ sq @ sq @ ''\<newline>\<newline>''
            else []) @
           ''response = requests.'' @ method_call (method (req s)) @ ''(url'' @
           '', headers=headers'' @
           (if body (req s) \<noteq> [] then '', data=data'' else []) @
           '')\<newline>'' @
           ''print(response.json())\<newline>\<newline>''"
    by (simp only: generate_python_code_stdout e c if_True append_assoc)
  show "List.map_filter key_value (header_list (req s)) =
           [(''Content-Type'', ''application/json''), (''X-Test'', ''1'')]"
    by (simp add: assms key_value_content_type key_value_x_test)
qed

text \<open>
  The theorem on a \<open>POST\<close> request with these two headers and the body \<open>{"x":1}\<close>.
\<close>

theorem two_headers_key_value_pairs_witness:
  "header_list (req (sample_store (sample_request ''POST''
      [''Content-Type: application/json'', ''X-Test: 1''] ''{\"x\":1}''))) =
     [''Content-Type: application/json'', ''X-Test: 1''] \<and>
   stdout (generate_javascript_code (sample_store (sample_request ''POST''
      [''Content-Type: application/json'', ''X-Test: 1''] ''{\"x\":1}''))) =
     COLOR_GREEN @ ''=== JavaScript (Fetch API) ==='' @ COLOR_RESET @ ''\<newline>'' @
     ''fetch('http://localhost:8080/api', {\<newline>'' @
     ''  method: 'POST',\<newline>'' @
     ''  headers: {\<newline>'' @
     ''    'Content-Type': 'application/json',\<newline>'' @
     ''    'X-Test': '1'\<newline>'' @
     ''  },\<newline>'' @
     ''  body: JSON.stringify({\"x\":1})\<newline>'' @
     ''})\<newline>'' @
     ''  .then(response => response.json())\<newline>'' @
     ''  .then(data => console.log(data))\<newline>'' @
     ''  .catch(error => console.error('Error:', error));\<newline>\<newline>'' \<and>
   stdout (generate_python_code (sample_store (sample_request ''POST''
      [''Content-Type: application/json'', ''X-Test: 1''] ''{\"x\":1}''))) =
     COLOR_GREEN @ ''=== Python (requests) ==='' @ COLOR_RESET @ ''\<newline>'' @
     ''import requests\<newline>import json\<newline>\<newline>'' @
     ''url = 'http://localhost:8080/api'\<newline>'' @
     ''headers = {\<newline>'' @
     ''    'Content-Type': 'application/json',\<newline>'' @
     ''    'X-Test': '1'\<newline>'' @
     ''}\<newline>\<newline>'' @
     ''data = '' @ sq @ sq @ sq @ ''{\"x\":1}'' @ sq @ sq @ sq @ ''\<newline>\<newline>'' @
     ''response = requests.post(url, headers=headers, data=data)\<newline>'' @
     ''print(response.json())\<newline>\<newline>''"
proof -
  let ?s = "sample_store (sample_request ''POST''
      [''Content-Type: application/json'', ''X-Test: 1''] ''{\"x\":1}'')"
  have h: "header_list (req ?s) = [''Content-Type: application/json'', ''X-Test: 1'']"
    by code_simp
  note t = two_headers_key_value_pairs [OF h]
  show ?thesis
  proof (intro conjI)
    show "header_list (req ?s) = [''Content-Type: application/json'', ''X-Test: 1'']"
      by (rule h)
    show "stdout (generate_javascript_code ?s) =
     COLOR_GREEN @ ''=== JavaScript (Fetch API) ==='' @ COLOR_RESET @ ''\<newline>'' @
     ''fetch('http://localhost:8080/api', {\<newline>'' @
     ''  method: 'POST',\<newline>'' @
     ''  headers: {\<newline>'' @
     ''    'Content-Type': 'application/json',\<newline>'' @
     ''    'X-Test': '1'\<newline>'' @
     ''  },\<newline>'' @
     ''  body: JSON.stringify({\"x\":1})\<newline>'' @
     ''})\<newline>'' @
     ''  .then(response => response.json())\<newline>'' @
     ''  .then(data => console.log(data))\<newline>'' @
     ''  .catch(error => console.error('Error:', error));\<newline>\<newline>''"
      by (subst t [THEN conjunct1]) code_simp
    show "stdout (generate_python_code ?s) =
     COLOR_GREEN @ ''=== Python (requests) ==='' @ COLOR_RESET @ ''\<newline>'' @
     ''import requests\<newline>import json\<newline>\<newline>'' @
     ''url = 'http://localhost:8080/api'\<newline>'' @
     ''headers = {\<newline>'' @
     ''    'Content-Type': 'application/json',\<newline>'' @
     ''    'X-Test': '1'\<newline>'' @
     ''}\<newline>\<newline>'' @
     ''data = '' @ sq @ sq @ sq @ ''{\"x\":1}'' @ sq @ sq @ sq @ ''\<newline>\<newline>'' @
     ''response = requests.post(url, headers=headers, data=data)\<newline>'' @
     ''print(response.json())\<newline>\<newline>''"
      by (subst t [THEN conjunct2, THEN conjunct1]) code_simp
  qed
qed

subsection \<open>A header without a colon\<close>

lemma key_value_blank:
  assumes "key_value (hs ! i) = None"
  shows "key_value (hs[i := []] ! j) = key_value (hs ! j)"
proof (cases "i < length hs")
  case True
  have "key_value [] = None" by (simp add: key_value_def)
  with True assms show ?thesis by (auto simp add: nth_list_update)
next
  case False
  then have "hs[i := []] = hs" by (simp add: list_update_beyond)
  then show ?thesis by simp
qed

lemma object_entry_blank:
  assumes "key_value (headers r ! i) = None"
  shows "object_entry (r\<lparr>headers := (headers r)[i := []]\<rparr>) = object_entry r"
  by (rule ext) (simp add: object_entry_def key_value_blank [OF assms])

lemma curl_header_line_sublist:
  assumes "int i < header_count (req s)"
  shows "sublist ('' '' @ bs @ ''\<newline>  -H '' @ sq @ headers (req s) ! i @ sq)
           (stdout (generate_curl_code s))"
proof -
  let ?f = "\<lambda>i. '' '' @ bs @ ''\<newline>  -H '' @ sq @ headers (req s) ! i @ sq"
  from assms have i: "i < nat (header_count (req s))" by simp
  then have "[0..<nat (header_count (req s))] =
               [0..<i] @ i # [Suc i..<nat (header_count (req s))]"
    by (metis less_imp_le_nat upt_add_eq_append upt_conv_Cons zero_le le_add_diff_inverse)
  then have "concat (map ?f [0..<nat (header_count (req s))]) =
               concat (map ?f [0..<i]) @ ?f i @
               concat (map ?f [Suc i..<nat (header_count (req s))])"
    by simp
  then obtain ps ss where "stdout (generate_curl_code s) = ps @ ?f i @ ss"
    unfolding generate_curl_code_stdout by (metis append.assoc)
  then show ?thesis
    by (simp only: sublist_appendI)
qed

lemma rust_entry_blank:
  "key_value (hs ! i) = None \<Longrightarrow> rust_entry (hs[i := []] ! j) = rust_entry (hs ! j)"
  by (simp add: rust_entry_def key_value_blank)

lemma java_entry_blank:
  "key_value (hs ! i) = None \<Longrightarrow> java_entry (hs[i := []] ! j) = java_entry (hs ! j)"
  by (simp add: java_entry_def key_value_blank)

lemma blank_fields:
  "url (r\<lparr>headers := hs\<rparr>) = url r"
  "method (r\<lparr>headers := hs\<rparr>) = method r"
  "header_count (r\<lparr>headers := hs\<rparr>) = header_count r"
  "body (r\<lparr>headers := hs\<rparr>) = body r"
  "headers (r\<lparr>headers := hs\<rparr>) = hs"
  "req (s\<lparr>req := r\<rparr>) = r"
  "stdout (s\<lparr>req := r\<rparr>) = stdout s"
  by simp_all

text \<open>
  C7. For every request and every header in use that has no colon: the loop bodies of the
  JavaScript, Python, Rust and Java generators write nothing for it and return with the
  request as it was (there is no error path), and the text that each of these four
  generators writes is the text it writes when the header is replaced by the empty
  string, so nothing of the header reaches the output; the cURL generator writes the
  header as it is in its \<open>-H\<close> line.
\<close>

theorem header_without_colon:
  assumes "int i < header_count (req s)" and "CHR '':'' \<notin> set (headers (req s) ! i)"
  shows "(stdout (javascript_header i s) = stdout s \<and> req (javascript_header i s) = req s) \<and>
         (stdout (python_header i s) = stdout s \<and> req (python_header i s) = req s) \<and>
         (stdout (rust_header i s) = stdout s \<and> req (rust_header i s) = req s) \<and>
         (stdout (java_header i s) = stdout s \<and> req (java_header i s) = req s) \<and>
         stdout (generate_javascript_code
           (s\<lparr>req := (req s)\<lparr>headers := (headers (req s))[i := []]\<rparr>\<rparr>)) =
           stdout (generate_javascript_code s) \<and>
         stdout (generate_python_code
           (s\<lparr>req := (req s)\<lparr>headers := (headers (req s))[i := []]\<rparr>\<rparr>)) =
           stdout (generate_python_code s) \<and>
         stdout (generate_rust_code
           (s\<lparr>req := (req s)\<lparr>headers := (headers (req s))[i := []]\<rparr>\<rparr>)) =
           stdout (generate_rust_code s) \<and>
         stdout (generate_java_code
           (s\<lparr>req := (req s)\<lparr>headers := (headers (req s))[i := []]\<rparr>\<rparr>)) =
           stdout (generate_java_code s) \<and>
         sublist ('' '' @ bs @ ''\<newline>  -H '' @ sq @ headers (req s) ! i @ sq)
           (stdout (generate_curl_code s))"
proof -
  have k: "key_value (headers (req s) ! i) = None"
    using assms(2) by (rule key_value_no_colon)
  have bodies:
    "stdout (javascript_header i s) = stdout s \<and> req (javascript_header i s) = req s"
    "stdout (python_header i s) = stdout s \<and> req (python_header i s) = req s"
    "stdout (rust_header i s) = stdout s \<and> req (rust_header i s) = req s"
    "stdout (java_header i s) = stdout s \<and> req (java_header i s) = req s"
    by (simp_all add: javascript_header_stdout python_header_stdout rust_header_stdout
          java_header_stdout object_entry_def rust_entry_def java_entry_def k)
  have js: "stdout (generate_javascript_code
           (s\<lparr>req := (req s)\<lparr>headers := (headers (req s))[i := []]\<rparr>\<rparr>)) =
           stdout (generate_javascript_code s)"
    by (simp only: generate_javascript_code_stdout blank_fields object_entry_blank [OF k]
          cong del: if_weak_cong)
  have py: "stdout (generate_python_code
           (s\<lparr>req := (req s)\<lparr>headers := (headers (req s))[i := []]\<rparr>\<rparr>)) =
           stdout (generate_python_code s)"
    by (simp only: generate_python_code_stdout blank_fields object_entry_blank [OF k]
          cong del: if_weak_cong)
  have rs: "stdout (generate_rust_code
           (s\<lparr>req := (req s)\<lparr>headers := (headers (req s))[i := []]\<rparr>\<rparr>)) =
           stdout (generate_rust_code s)"
    by (simp only: generate_rust_code_stdout blank_fields rust_entry_blank [OF k]
          cong del: if_weak_cong)
  have jv: "stdout (generate_java_code
           (s\<lparr>req := (req s)\<lparr>headers := (headers (req s))[i := []]\<rparr>\<rparr>)) =
           stdout (generate_java_code s)"
    by (simp only: generate_java_code_stdout blank_fields java_entry_blank [OF k]
          cong del: if_weak_cong)
  show ?thesis
    using bodies js py rs jv curl_header_line_sublist [OF assms(1)] by blast
qed

text \<open>
  The theorem on a request whose second header is \<open>malformed-header\<close>.
\<close>

theorem header_without_colon_witness:
  "int 1 < header_count (req (sample_store (sample_request ''POST''
      [''Accept: */*'', ''malformed-header''] ''{}''))) \<and>
   CHR '':'' \<notin> set (headers (req (sample_store (sample_request ''POST''
      [''Accept: */*'', ''malformed-header''] ''{}''))) ! 1) \<and>
   stdout (javascript_header 1 (sample_store (sample_request ''POST''
      [''Accept: */*'', ''malformed-header''] ''{}''))) = [] \<and>
   stdout (python_header 1 (sample_store (sample_request ''POST''
      [''Accept: */*'', ''malformed-header''] ''{}''))) = [] \<and>
   stdout (rust_header 1 (sample_store (sample_request ''POST''
      [''Accept: */*'', ''malformed-header''] ''{}''))) = [] \<and>
   stdout (java_header 1 (sample_store (sample_request ''POST''
      [''Accept: */*'', ''malformed-header''] ''{}''))) = [] \<and>
   sublist ('' '' @ bs @ ''\<newline>  -H 'malformed-header'' @ sq)
     (stdout (generate_curl_code (sample_store (sample_request ''POST''
        [''Accept: */*'', ''malformed-header''] ''{}''))))"
proof -
  let ?s = "sample_store (sample_request ''POST'' [''Accept: */*'', ''malformed-header''] ''{}'')"
  have h1: "int 1 < header_count (req ?s)"
    by code_simp
  have h2: "CHR '':'' \<notin> set (headers (req ?s) ! 1)"
    by code_simp
  have o: "stdout ?s = []"
    by (simp add: sample_store_def)
  have m: "headers (req ?s) ! 1 = ''malformed-header''"
    by code_simp
  show ?thesis
    using header_without_colon [OF h1 h2] h1 h2
    by (simp only: o m append_Nil append_Cons simp_thms)
qed

subsection \<open>Methods other than GET, POST, PUT and DELETE\<close>

lemma method_call_other:
  "m \<notin> {''GET'', ''POST'', ''PUT'', ''DELETE''} \<Longrightarrow> method_call m = ''request''"
  by (simp add: method_call_def)

lemma java_publisher_other:
  "m \<notin> {''GET'', ''POST'', ''PUT'', ''DELETE''} \<Longrightarrow> java_publisher m = ''method''"
  by (simp add: java_publisher_def)

text \<open>
  C4, as amended. For every request whose method is none of \<open>GET\<close>, \<open>POST\<close>, \<open>PUT\<close> and
  \<open>DELETE\<close>, as \<open>PATCH\<close> is: the Python generator calls \<open>requests.request(url\<close> and the
  Rust generator calls \<open>client.request("<url>")\<close>; the cURL generator writes the method
  itself after \<open>curl -X\<close>; the Java generator writes the method itself, as
  \<open>.<METHOD>(HttpRequest.BodyPublishers.noBody())\<close>, when the body is empty, and
  \<open>.method(HttpRequest.BodyPublishers.ofString(jsonBody))\<close> when the request has a body.
\<close>

theorem other_method_calls:
  assumes "method (req s) \<notin> {''GET'', ''POST'', ''PUT'', ''DELETE''}"
  shows "stdout (generate_python_code s) =
           stdout s @ COLOR_GREEN @ ''=== Python (requests) ==='' @ COLOR_RESET @ ''\<newline>'' @
           ''import requests\<newline>import json\<newline>\<newline>'' @
           ''url = '' @ sq @ url (req s) @ sq @ ''\<newline>'' @
           (if header_count (req s) > 0
            then ''headers = {\<newline>'' @
                 concat (map (object_entry (req s)) [0..<nat (header_count (req s))]) @
                 ''}\<newline>\<newline>''
            else []) @
           (if body (req s) \<noteq> []
            then ''data = '' @ sq @ sq @ sq @ body (req s) @ sq @ sq @ sq @ ''\<newline>\<newline>''
            else []) @
           ''response = requests.request(url'' @
           (if header_count (req s) > 0 then '', headers=headers'' else []) @
           (if body (req s) \<noteq> [] then '', data=data'' else []) @
           '')\<newline>'' @
           ''print(response.json())\<newline>\<newline>'' \<and>
         stdout (generate_rust_code s) =
           stdout s @ COLOR_GREEN @ ''=== Rust (reqwest) ==='' @ COLOR_RESET @ ''\<newline>'' @
           ''use reqwest;\<newline>\<newline>'' @
           ''#[tokio::main]\<newline>'' @
           ''async fn main() -> Result<(), Box<dyn std::error::Error>> {\<newline>'' @
           ''    let client = reqwest::Client::new();\<newline>'' @
           (if body (req s) \<noteq> []
            then ''    let body = r#\"'' @ body (req s) @ ''\"#;\<newline>\<newline>'' else []) @
           ''    let response = client.request(\"'' @ url (req s) @ ''\")\<newline>'' @
           concat (map (\<lambda>i. rust_entry (headers (req s) ! i))
                       [0..<nat (header_count (req s))]) @
           (if body (req s) \<noteq> [] then ''        .body(body)\<newline>'' else []) @
           ''        .send()\<newline>'' @
           ''        .await?;\<newline>\<newline>'' @
           ''    let body = response.text().await?;\<newline>'' @
           ''    println!(\"{}\", body);\<newline>'' @
           ''    Ok(())\<newline>'' @
           ''}\<newline>\<newline>'' \<and>
         stdout (generate_curl_code s) =
           stdout s @ ''\<newline>'' @ COLOR_GREEN @ ''=== cURL ==='' @ COLOR_RESET @ ''\<newline>'' @
           ''curl -X '' @ method (req s) @ '' '' @ sq @ url (req s) @ sq @
           concat (map (\<lambda>i. '' '' @ bs @ ''\<newline>  -H '' @ sq @ headers (req s) ! i @ sq)
                       [0..<nat (header_count (req s))]) @
           (if body (req s) \<noteq> []
            then '' '' @ bs @ ''\<newline>  -d '' @ sq @ body (req s) @ sq else []) @
           (if follow_redirects (req s) \<noteq> 0 then '' '' @ bs @ ''\<newline>  -L'' else []) @
           (if timeout (req s) > 0
            then '' '' @ bs @ ''\<newline>  --max-time '' @ show_long (timeout (req s)) else []) @
           ''\<newline>\<newline>'' \<and>
         stdout (generate_java_code s) =
           stdout s @ COLOR_GREEN @ ''=== Java (HttpClient) ==='' @ COLOR_RESET @ ''\<newline>'' @
           ''import java.net.URI;\<newline>'' @
           ''import java.net.http.HttpClient;\<newline>'' @
           ''import java.net.http.HttpRequest;\<newline>'' @
           ''import java.net.http.HttpResponse;\<newline>\<newline>'' @
           ''public class HttpExample {\<newline>'' @
           ''    public static void main(String[] args) throws Exception {\<newline>'' @
           ''        HttpClient client = HttpClient.newHttpClient();\<newline>'' @
           (if body (req s) \<noteq> []
            then ''        String jsonBody = \"\"\"\<newline>'' @
                 ''            '' @ body (req s) @ ''\<newline>'' @
                 ''            \"\"\";\<newline>\<newline>''
            else []) @
           ''        HttpRequest.Builder builder = HttpRequest.newBuilder()\<newline>'' @
           ''            .uri(URI.create(\"'' @ url (req s) @ ''\"))\<newline>'' @
           concat (map (\<lambda>i. java_entry (headers (req s) ! i))
                       [0..<nat (header_count (req s))]) @
           (if body (req s) \<noteq> []
            then ''            .method(HttpRequest.BodyPublishers.ofString(jsonBody));\<newline>''
            else ''            .'' @ method (req s) @
                 ''(HttpRequest.BodyPublishers.noBody());\<newline>'') @
           ''\<newline>        HttpRequest request = builder.build();\<newline>'' @
           ''        HttpResponse<String> response = client.send(request,\<newline>'' @
           ''            HttpResponse.BodyHandlers.ofString());\<newline>'' @
           ''        System.out.println(response.body());\<newline>'' @
           ''    }\<newline>'' @
           ''}\<newline>\<newline>''"
proof -
  have j: "''            .'' @ java_publisher (method (req s)) @
             ''(HttpRequest.BodyPublishers.ofString(jsonBody));\<newline>'' =
           ''            .method(HttpRequest.BodyPublishers.ofString(jsonBody));\<newline>''"
    by (simp add: java_publisher_other [OF assms])
  have p: "''response = requests.'' @ method_call (method (req s)) @ ''(url'' @ rest =
           ''response = requests.request(url'' @ rest" for rest
    by (simp add: method_call_other [OF assms])
  have r: "''    let response = client.'' @ method_call (method (req s)) @ ''(\"'' @ rest =
           ''    let response = client.request(\"'' @ rest" for rest
    by (simp add: method_call_other [OF assms])
  show ?thesis
    by (simp only: generate_python_code_stdout generate_rust_code_stdout
          generate_curl_code_stdout generate_java_code_stdout p r j simp_thms)
qed

text \<open>The theorem on a \<open>PATCH\<close> request without headers and without a body.\<close>

theorem other_method_calls_witness:
  "method (req (sample_store (sample_request ''PATCH'' [] []))) \<notin>
     {''GET'', ''POST'', ''PUT'', ''DELETE''} \<and>
   stdout (generate_python_code (sample_store (sample_request ''PATCH'' [] []))) =
     COLOR_GREEN @ ''=== Python (requests) ==='' @ COLOR_RESET @ ''\<newline>'' @
     ''import requests\<newline>import json\<newline>\<newline>'' @
     ''url = 'http://localhost:8080/api'\<newline>'' @
     ''response = requests.request(url)\<newline>'' @
     ''print(response.json())\<newline>\<newline>'' \<and>
   stdout (generate_rust_code (sample_store (sample_request ''PATCH'' [] []))) =
     COLOR_GREEN @ ''=== Rust (reqwest) ==='' @ COLOR_RESET @ ''\<newline>'' @
     ''use reqwest;\<newline>\<newline>'' @
     ''#[tokio::main]\<newline>'' @
     ''async fn main() -> Result<(), Box<dyn std::error::Error>> {\<newline>'' @
     ''    let client = reqwest::Client::new();\<newline>'' @
     ''    let response = client.request(\"http://localhost:8080/api\")\<newline>'' @
     ''        .send()\<newline>'' @
     ''        .await?;\<newline>\<newline>'' @
     ''    let body = response.text().await?;\<newline>'' @
     ''    println!(\"{}\", body);\<newline>'' @
     ''    Ok(())\<newline>'' @
     ''}\<newline>\<newline>'' \<and>
   stdout (generate_curl_code (sample_store (sample_request ''PATCH'' [] []))) =
     ''\<newline>'' @ COLOR_GREEN @ ''=== cURL ==='' @ COLOR_RESET @ ''\<newline>'' @
     ''curl -X PATCH 'http://localhost:8080/api' '' @ bs @ ''\<newline>'' @
     ''  -L '' @ bs @ ''\<newline>'' @
     ''  --max-time 30\<newline>\<newline>'' \<and>
   stdout (generate_java_code (sample_store (sample_request ''PATCH'' [] []))) =
     COLOR_GREEN @ ''=== Java (HttpClient) ==='' @ COLOR_RESET @ ''\<newline>'' @
     ''import java.net.URI;\<newline>'' @
     ''import java.net.http.HttpClient;\<newline>'' @
     ''import java.net.http.HttpRequest;\<newline>'' @
     ''import java.net.http.HttpResponse;\<newline>\<newline>'' @
     ''public class HttpExample {\<newline>'' @
     ''    public static void main(String[] args) throws Exception {\<newline>'' @
     ''        HttpClient client = HttpClient.newHttpClient();\<newline>'' @
     ''        HttpRequest.Builder builder = HttpRequest.newBuilder()\<newline>'' @
     ''            .uri(URI.create(\"http://localhost:8080/api\"))\<newline>'' @
     ''            .PATCH(HttpRequest.BodyPublishers.noBody());\<newline>'' @
     ''\<newline>        HttpRequest request = builder.build();\<newline>'' @
     ''        HttpResponse<String> response = client.send(request,\<newline>'' @
     ''            HttpResponse.BodyHandlers.ofString());\<newline>'' @
     ''        System.out.println(response.body());\<newline>'' @
     ''    }\<newline>'' @
     ''}\<newline>\<newline>''"
proof -
  let ?s = "sample_store (sample_request ''PATCH'' [] [])"
  have h: "method (req ?s) \<notin> {''GET'', ''POST'', ''PUT'', ''DELETE''}"
    by code_simp
  note t = other_method_calls [OF h]
  show ?thesis
  proof (intro conjI)
    show "method (req ?s) \<notin> {''GET'', ''POST'', ''PUT'', ''DELETE''}"
      by (rule h)
    show "stdout (generate_python_code ?s) =
     COLOR_GREEN @ ''=== Python (requests) ==='' @ COLOR_RESET @ ''\<newline>'' @
     ''import requests\<newline>import json\<newline>\<newline>'' @
     ''url = 'http://localhost:8080/api'\<newline>'' @
     ''response = requests.request(url)\<newline>'' @
     ''print(response.json())\<newline>\<newline>''"
      by (subst t [THEN conjunct1]) code_simp
    show "stdout (generate_rust_code ?s) =
     COLOR_GREEN @ ''=== Rust (reqwest) ==='' @ COLOR_RESET @ ''\<newline>'' @
     ''use reqwest;\<newline>\<newline>'' @
     ''#[tokio::main]\<newline>'' @
     ''async fn main() -> Result<(), Box<dyn std::error::Error>> {\<newline>'' @
     ''    let client = reqwest::Client::new();\<newline>'' @
     ''    let response = client.request(\"http://localhost:8080/api\")\<newline>'' @
     ''        .send()\<newline>'' @
     ''        .await?;\<newline>\<newline>'' @
     ''    let body = response.text().await?;\<newline>'' @
     ''    println!(\"{}\", body);\<newline>'' @
     ''    Ok(())\<newline>'' @
     ''}\<newline>\<newline>''"
      by (subst t [THEN conjunct2, THEN conjunct1]) code_simp
    show "stdout (generate_curl_code ?s) =
     ''\<newline>'' @ COLOR_GREEN @ ''=== cURL ==='' @ COLOR_RESET @ ''\<newline>'' @
     ''curl -X PATCH 'http://localhost:8080/api' '' @ bs @ ''\<newline>'' @
     ''  -L '' @ bs @ ''\<newline>'' @
     ''  --max-time 30\<newline>\<newline>''"
      by (subst t [THEN conjunct2, THEN conjunct2, THEN conjunct1]) code_simp
    show "stdout (generate_java_code ?s) =
     COLOR_GREEN @ ''=== Java (HttpClient) ==='' @ COLOR_RESET @ ''\<newline>'' @
     ''import java.net.URI;\<newline>'' @
     ''import java.net.http.HttpClient;\<newline>'' @
     ''import java.net.http.HttpRequest;\<newline>'' @
     ''import java.net.http.HttpResponse;\<newline>\<newline>'' @
     ''public class HttpExample {\<newline>'' @
     ''    public static void main(String[] args) throws Exception {\<newline>'' @
     ''        HttpClient client = HttpClient.newHttpClient();\<newline>'' @
     ''        HttpRequest.Builder builder = HttpRequest.newBuilder()\<newline>'' @
     ''            .uri(URI.create(\"http://localhost:8080/api\"))\<newline>'' @
     ''            .PATCH(HttpRequest.BodyPublishers.noBody());\<newline>'' @
     ''\<newline>        HttpRequest request = builder.build();\<newline>'' @
     ''        HttpResponse<String> response = client.send(request,\<newline>'' @
     ''            HttpResponse.BodyHandlers.ofString());\<newline>'' @
     ''        System.out.println(response.body());\<newline>'' @
     ''    }\<newline>'' @
     ''}\<newline>\<newline>''"
      by (subst t [THEN conjunct2, THEN conjunct2, THEN conjunct2]) code_simp
  qed
qed

text \<open>
  C4 as stated has the Java generator write the token \<open>PATCH\<close> itself. For a \<open>PATCH\<close>
  request with the body \<open>{"x":1}\<close> the text written by the Java generator does not contain
  \<open>PATCH\<close> anywhere: the call is \<open>.method(\<close>.
\<close>

theorem java_patch_with_body_counterexample:
  "method (req (sample_store (sample_request ''PATCH'' [] ''{\"x\":1}''))) = ''PATCH'' \<and>
   \<not> sublist ''PATCH''
     (stdout (generate_java_code (sample_store (sample_request ''PATCH'' [] ''{\"x\":1}'')))) \<and>
   sublist ''            .method(HttpRequest.BodyPublishers.ofString(jsonBody));\<newline>''
     (stdout (generate_java_code (sample_store (sample_request ''PATCH'' [] ''{\"x\":1}''))))"
  by code_simp

section \<open>The JSON content type of a new request (httpx.c lines 552-566)\<close>

definition MAX_HEADERS :: int where
  "MAX_HEADERS = 50"

text \<open>
  \<open>s[0]\<close> for a C string \<open>s\<close>: the first character, and the terminator when the string
  is empty.
\<close>

definition first_char :: "string \<Rightarrow> char" where
  "first_char cs = (case cs of [] \<Rightarrow> CHR 0x00 | c # _ \<Rightarrow> c)"

text \<open>\<open>tolower\<close> in the C locale.\<close>

definition tolower :: "char \<Rightarrow> char" where
  "tolower c =
     (if (65::nat) \<le> of_char c \<and> of_char c \<le> (90::nat)
      then char_of (of_char c + (32::nat)) else c)"

text \<open>
  \<open>strncasecmp(s1, s2, n)\<close>: the difference at the first of the first \<open>n\<close> positions
  where the two strings differ after \<open>tolower\<close>, and 0 when there is none before one of
  them ends.
\<close>

fun strncasecmp :: "string \<Rightarrow> string \<Rightarrow> nat \<Rightarrow> int" where
  "strncasecmp s1 s2 0 = 0"
| "strncasecmp s1 s2 (Suc n) =
     (let c1 = tolower (first_char s1); c2 = tolower (first_char s2) in
      if c1 \<noteq> c2 then int (of_char c1) - int (of_char c2)
      else if c1 = CHR 0x00 then 0
      else strncasecmp (tl s1) (tl s2) n)"

text \<open>
  The \<open>for\<close> loop of lines 554-559 from index \<open>i\<close>: the value of \<open>has_content_type\<close>
  after it (the loop leaves at the first header that matches).
\<close>

function content_type_scan :: "nat \<Rightarrow> Request \<Rightarrow> int" where
  "content_type_scan i r =
     (if int i < header_count r
      then (if strncasecmp (headers r ! i) ''Content-Type:'' 13 = 0 then 1
            else content_type_scan (i + 1) r)
      else 0)"
  by pat_completeness auto
termination
  by (relation "measure (\<lambda>(i, r). nat (header_count r) - i)") auto

declare content_type_scan.simps [simp del]

text \<open>
  The statements of \<open>configure_request\<close> after \<open>read_multiline_body\<close> has filled
  \<open>req->body\<close>. The \<open>strcpy\<close> of line 561 copies a string literal into the first free
  header slot.
\<close>

definition configure_request_content_type :: "store \<Rightarrow> store" where
  "configure_request_content_type s0 =
     (if first_char (body (req s0)) = CHR ''{'' \<or> first_char (body (req s0)) = CHR ''[''
      then
        (let has_content_type = content_type_scan 0 (req s0) in
         if has_content_type = 0 \<and> header_count (req s0) < MAX_HEADERS
         then
           (let s = set_buffer (Header (nat (header_count (req s0))))
                      ''Content-Type: application/json'' s0;
                s = s\<lparr>req := (req s)\<lparr>header_count := header_count (req s) + 1\<rparr>\<rparr>;
                s = printf (COLOR_YELLOW @
                            ''[i] Auto-added Content-Type: application/json header'' @
                            COLOR_RESET @ ''\<newline>'') s
            in s)
         else s0)
      else s0)"

text \<open>
  What the program keeps true of the header array: \<open>header_count\<close> is between 0 and
  \<open>MAX_HEADERS\<close>, the number of slots.
\<close>

definition header_slots :: "Request \<Rightarrow> bool" where
  "header_slots r =
     (0 \<le> header_count r \<and> header_count r \<le> MAX_HEADERS \<and>
      int (length (headers r)) = MAX_HEADERS)"

text \<open>
  In the words of the specification: the key of a header, the text before its first
  colon, equals \<open>Content-Type\<close> when case is ignored.
\<close>

definition content_type_key :: "string \<Rightarrow> bool" where
  "content_type_key h =
     (CHR '':'' \<in> set h \<and>
      map tolower (takeWhile (\<lambda>c. c \<noteq> CHR '':'') h) = ''content-type'')"

subsection \<open>The comparison and the key of a header\<close>

lemma tolower_code: "(of_char (tolower c) :: nat) =
    (if (65::nat) \<le> of_char c \<and> of_char c \<le> (90::nat) then of_char c + 32 else of_char c)"
proof -
  have "(of_char c + 32 :: nat) mod 256 = of_char c + 32" if "of_char c \<le> (90::nat)"
    using that by simp
  then show ?thesis
    by (simp add: tolower_def)
qed

lemma tolower_nul: "tolower c = CHR 0x00 \<longleftrightarrow> c = CHR 0x00"
proof -
  have "tolower c = CHR 0x00 \<longleftrightarrow> (of_char (tolower c) :: nat) = of_char (CHR 0x00)"
    by (simp only: of_char_eq_iff)
  also have "\<dots> \<longleftrightarrow> (of_char c :: nat) = of_char (CHR 0x00)"
    by (simp add: tolower_code)
  also have "\<dots> \<longleftrightarrow> c = CHR 0x00"
    by (simp only: of_char_eq_iff)
  finally show ?thesis .
qed

lemma tolower_colon: "tolower c = CHR '':'' \<longleftrightarrow> c = CHR '':''"
proof -
  have "tolower c = CHR '':'' \<longleftrightarrow> (of_char (tolower c) :: nat) = of_char (CHR '':'')"
    by (simp only: of_char_eq_iff)
  also have "\<dots> \<longleftrightarrow> (of_char c :: nat) = of_char (CHR '':'')"
    by (auto simp add: tolower_code)
  also have "\<dots> \<longleftrightarrow> c = CHR '':''"
    by (simp only: of_char_eq_iff)
  finally show ?thesis .
qed

lemma of_char_pos: "x \<noteq> CHR 0x00 \<Longrightarrow> 0 < (of_char x :: nat)"
proof -
  assume "x \<noteq> CHR 0x00"
  then have "(of_char x :: nat) \<noteq> of_char (CHR 0x00)"
    by (simp only: of_char_eq_iff not_False_eq_True)
  then show ?thesis by simp
qed

lemma char_difference: "int (of_char a) - int (of_char b) = 0 \<longleftrightarrow> a = b"
  by simp

lemma strncasecmp_zero:
  assumes "CHR 0x00 \<notin> set p"
  shows "strncasecmp h p (length p) = 0 \<longleftrightarrow>
           length p \<le> length h \<and> map tolower (take (length p) h) = map tolower p"
  using assms
proof (induction p arbitrary: h)
  case Nil
  show ?case by simp
next
  case (Cons c cs)
  from Cons.prems have c: "tolower c \<noteq> CHR 0x00" and cs: "CHR 0x00 \<notin> set cs"
    by (auto simp add: tolower_nul)
  show ?case
  proof (cases h)
    case Nil
    with c show ?thesis
      by (simp add: first_char_def tolower_nul [of "CHR 0x00", simplified] Let_def of_char_pos)
  next
    case (Cons d ds)
    show ?thesis
    proof (cases "tolower d = tolower c")
      case True
      with c Cons Cons.IH [OF cs, of ds] show ?thesis
        by (simp add: first_char_def Let_def)
    next
      case False
      with Cons show ?thesis
        by (simp add: first_char_def Let_def)
    qed
  qed
qed

lemma strncasecmp_content_type:
  "strncasecmp h ''Content-Type:'' 13 = 0 \<longleftrightarrow>
     13 \<le> length h \<and> map tolower (take 13 h) = ''content-type:''"
proof -
  have l: "length ''Content-Type:'' = 13" by simp
  have m: "map tolower ''Content-Type:'' = ''content-type:''" by code_simp
  have n: "CHR 0x00 \<notin> set ''Content-Type:''" by simp
  show ?thesis
    using strncasecmp_zero [OF n, of h] by (simp only: l m)
qed

lemma strncasecmp_content_type_key:
  "strncasecmp h ''Content-Type:'' 13 = 0 \<longleftrightarrow> content_type_key h"
proof
  assume "strncasecmp h ''Content-Type:'' 13 = 0"
  then have len: "13 \<le> length h" and m: "map tolower (take 13 h) = ''content-type:''"
    by (simp_all add: strncasecmp_content_type)
  from len have "12 < length h"
    by simp
  from take_Suc_conv_app_nth [OF this] have t13: "take 13 h = take 12 h @ [h ! 12]"
    by simp
  from m have m12: "map tolower (take 12 h) = ''content-type''"
    and c: "tolower (h ! 12) = CHR '':''"
    by (simp_all add: t13)
  from c have hc: "h ! 12 = CHR '':''"
    by (simp add: tolower_colon)
  have no: "x \<noteq> CHR '':''" if "x \<in> set (take 12 h)" for x
  proof
    assume "x = CHR '':''"
    with that have "tolower (CHR '':'') \<in> set (map tolower (take 12 h))"
      by (simp del: set_map) (metis imageI set_map)
    then have "CHR '':'' \<in> set ''content-type''"
      by (simp only: m12 tolower_colon [THEN iffD2, OF refl])
    then show False by simp
  qed
  from len hc have h: "h = take 12 h @ CHR '':'' # drop 13 h"
    using id_take_nth_drop [of 12 h] by simp
  have "takeWhile (\<lambda>c. c \<noteq> CHR '':'') (take 12 h @ CHR '':'' # drop 13 h) = take 12 h"
    using no by (simp add: takeWhile_tail)
  with h have tw: "takeWhile (\<lambda>c. c \<noteq> CHR '':'') h = take 12 h"
    by simp
  from h have "CHR '':'' \<in> set h"
    by (metis in_set_conv_decomp)
  with tw m12 show "content_type_key h"
    by (simp add: content_type_key_def)
next
  assume k: "content_type_key h"
  define key where "key = takeWhile (\<lambda>c. c \<noteq> CHR '':'') h"
  from k have col: "CHR '':'' \<in> set h" and m: "map tolower key = ''content-type''"
    by (simp_all add: content_type_key_def key_def)
  from m have "length (map tolower key) = 12" by simp
  then have lk: "length key = 12" by simp
  from col have ne: "dropWhile (\<lambda>c. c \<noteq> CHR '':'') h \<noteq> []"
    by simp
  then have "hd (dropWhile (\<lambda>c. c \<noteq> CHR '':'') h) = CHR '':''"
    using hd_dropWhile [of "\<lambda>c. c \<noteq> CHR '':''" h] by simp
  with ne have "dropWhile (\<lambda>c. c \<noteq> CHR '':'') h =
                  CHR '':'' # tl (dropWhile (\<lambda>c. c \<noteq> CHR '':'') h)"
    by (metis list.collapse)
  then have h: "h = key @ CHR '':'' # tl (dropWhile (\<lambda>c. c \<noteq> CHR '':'') h)"
    unfolding key_def by (metis takeWhile_dropWhile_id)
  have "take 13 (key @ CHR '':'' # tl (dropWhile (\<lambda>c. c \<noteq> CHR '':'') h)) = key @ [CHR '':'']"
    by (simp add: lk)
  with h have t: "take 13 h = key @ [CHR '':'']"
    by simp
  have "length (key @ CHR '':'' # tl (dropWhile (\<lambda>c. c \<noteq> CHR '':'') h)) \<ge> 13"
    by (simp add: lk)
  with h have len: "13 \<le> length h"
    by simp
  have "tolower (CHR '':'') = CHR '':''"
    by (simp add: tolower_colon)
  with m t have "map tolower (take 13 h) = ''content-type:''"
    by simp
  with len show "strncasecmp h ''Content-Type:'' 13 = 0"
    by (simp add: strncasecmp_content_type)
qed

subsection \<open>The scan and the step\<close>

lemma content_type_scan_zero:
  "content_type_scan i r = 0 \<longleftrightarrow>
     (\<forall>j. i \<le> j \<and> int j < header_count r \<longrightarrow> \<not> content_type_key (headers r ! j))"
proof (induction i r rule: content_type_scan.induct)
  case (1 i r)
  show ?case
  proof (cases "int i < header_count r")
    case False
    then have n: "\<not> (i \<le> j \<and> int j < header_count r)" for j
      by linarith
    from False have "content_type_scan i r = 0"
      by (simp add: content_type_scan.simps [of i r])
    with n show ?thesis
      by blast
  next
    case True
    show ?thesis
    proof (cases "content_type_key (headers r ! i)")
      case k: True
      with True have "content_type_scan i r = 1"
        by (simp add: content_type_scan.simps [of i r] strncasecmp_content_type_key)
      with True k show ?thesis by auto
    next
      case k: False
      then have n: "strncasecmp (headers r ! i) ''Content-Type:'' 13 \<noteq> 0"
        by (simp add: strncasecmp_content_type_key)
      with True have "content_type_scan i r = content_type_scan (i + 1) r"
        by (simp add: content_type_scan.simps [of i r])
      also have "\<dots> = 0 \<longleftrightarrow>
          (\<forall>j. i + 1 \<le> j \<and> int j < header_count r \<longrightarrow> \<not> content_type_key (headers r ! j))"
        using "1.IH" [OF True n] .
      also have "\<dots> \<longleftrightarrow>
          (\<forall>j. i \<le> j \<and> int j < header_count r \<longrightarrow> \<not> content_type_key (headers r ! j))"
        using k by (metis Suc_eq_plus1 Suc_leI le_neq_implies_less Suc_leD)
      finally show ?thesis .
    qed
  qed
qed

lemma content_type_scan_header_list:
  "content_type_scan 0 r = 0 \<longleftrightarrow> \<not> (\<exists>h \<in> set (header_list r). content_type_key h)"
proof -
  have "(\<exists>h \<in> set (header_list r). content_type_key h) \<longleftrightarrow>
          (\<exists>j. int j < header_count r \<and> content_type_key (headers r ! j))"
    by (auto simp add: header_list_def zless_nat_eq_int_zless)
  then show ?thesis
    by (simp add: content_type_scan_zero)
qed

lemma header_list_append:
  assumes "0 \<le> header_count r" and "nat (header_count r) < length (headers r)"
  shows "header_list (r\<lparr>headers := (headers r)[nat (header_count r) := h],
                         header_count := header_count r + 1\<rparr>) = header_list r @ [h]"
proof -
  let ?n = "nat (header_count r)"
  from assms(1) have n: "nat (header_count r + 1) = Suc ?n"
    by simp
  have "map (\<lambda>i. (headers r)[?n := h] ! i) [0..<?n] = map (\<lambda>i. headers r ! i) [0..<?n]"
    by simp
  with assms(2) show ?thesis
    by (simp add: header_list_def n)
qed

text \<open>
  C5, as amended. For every request that keeps the bounds of the header array: if the
  first character of the body is \<open>{\<close> or \<open>[\<close>, no header in use has a key that equals
  \<open>Content-Type\<close> when case is ignored, and fewer than \<open>MAX_HEADERS\<close> headers are in use,
  then \<open>Content-Type: application/json\<close> is appended to the headers in use; otherwise the
  headers in use are left as they are.
\<close>

theorem configure_request_content_type_header:
  assumes "header_slots (req s)"
  shows "header_list (req (configure_request_content_type s)) =
           (if (first_char (body (req s)) = CHR ''{'' \<or> first_char (body (req s)) = CHR ''['') \<and>
               \<not> (\<exists>h \<in> set (header_list (req s)). content_type_key h) \<and>
               header_count (req s) < MAX_HEADERS
            then header_list (req s) @ [''Content-Type: application/json'']
            else header_list (req s))"
proof (cases "(first_char (body (req s)) = CHR ''{'' \<or> first_char (body (req s)) = CHR ''['') \<and>
               content_type_scan 0 (req s) = 0 \<and> header_count (req s) < MAX_HEADERS")
  case True
  from assms True have b: "0 \<le> header_count (req s)"
    "nat (header_count (req s)) < length (headers (req s))"
    by (simp_all add: header_slots_def nat_less_iff)
  from True have "req (configure_request_content_type s) =
      (req s)\<lparr>headers := (headers (req s))[nat (header_count (req s)) :=
                   ''Content-Type: application/json''],
               header_count := header_count (req s) + 1\<rparr>"
    by (simp add: configure_request_content_type_def Let_def)
  with True show ?thesis
    by (simp add: header_list_append [OF b] content_type_scan_header_list)
next
  case False
  then have "configure_request_content_type s = s"
    by (auto simp add: configure_request_content_type_def Let_def)
  with False show ?thesis
    by (auto simp add: content_type_scan_header_list)
qed

text \<open>
  The theorem on a \<open>POST\<close> request with one header and the body \<open>{"x":1}\<close>, where the header
  is appended, and on the same request with a \<open>content-type\<close> header, where it is not.
\<close>

theorem configure_request_content_type_header_witness:
  "header_slots (req (sample_store (sample_request ''POST'' [''Accept: */*''] ''{\"x\":1}''))) \<and>
   header_list (req (configure_request_content_type
     (sample_store (sample_request ''POST'' [''Accept: */*''] ''{\"x\":1}'')))) =
     [''Accept: */*'', ''Content-Type: application/json''] \<and>
   header_slots (req (sample_store (sample_request ''POST''
     [''content-type: text/plain''] ''{\"x\":1}''))) \<and>
   header_list (req (configure_request_content_type
     (sample_store (sample_request ''POST'' [''content-type: text/plain''] ''{\"x\":1}'')))) =
     [''content-type: text/plain'']"
proof (intro conjI)
  let ?s = "sample_store (sample_request ''POST'' [''Accept: */*''] ''{\"x\":1}'')"
  let ?t = "sample_store (sample_request ''POST'' [''content-type: text/plain''] ''{\"x\":1}'')"
  show s: "header_slots (req ?s)"
    by code_simp
  show t: "header_slots (req ?t)"
    by code_simp
  have ks: "\<not> (\<exists>h \<in> set (header_list (req ?s)). content_type_key h)"
    by code_simp
  have kt: "\<exists>h \<in> set (header_list (req ?t)). content_type_key h"
    by code_simp
  have fs: "first_char (body (req ?s)) = CHR ''{''" and cs: "header_count (req ?s) < MAX_HEADERS"
    and ls: "header_list (req ?s) = [''Accept: */*'']"
    by code_simp+
  have lt: "header_list (req ?t) = [''content-type: text/plain'']"
    by code_simp
  show "header_list (req (configure_request_content_type ?s)) =
          [''Accept: */*'', ''Content-Type: application/json'']"
    using configure_request_content_type_header [OF s] ks fs cs ls by simp
  show "header_list (req (configure_request_content_type ?t)) = [''content-type: text/plain'']"
    using configure_request_content_type_header [OF t] kt lt by simp
qed

text \<open>
  C5 as stated looks at the first character of the body that is not a space. The body
  \<open> {}\<close>, with a space before the brace, is not empty and its first such character is
  \<open>{\<close>; no header is in use; yet no header is added.
\<close>

theorem configure_request_leading_space_counterexample:
  "body (req (sample_store (sample_request ''POST'' [] '' {}''))) \<noteq> [] \<and>
   hd (dropWhile (\<lambda>c. c = CHR '' '')
         (body (req (sample_store (sample_request ''POST'' [] '' {}''))))) = CHR ''{'' \<and>
   header_list (req (sample_store (sample_request ''POST'' [] '' {}''))) = [] \<and>
   header_list (req (configure_request_content_type
     (sample_store (sample_request ''POST'' [] '' {}'')))) = []"
  by code_simp

end
